theory Spec2Isabelle
  imports Main "HOL-Library.Word"
begin

unbundle bit_operations_syntax

section \<open>NVMe-Strom: registry of mapped GPU memory and DMA tasks\<close>

text \<open>
  A shallow embedding of \<^verbatim>\<open>nvme-strom.c\<close>.  Kernel objects live in explicit
  stores keyed by their address, because a DMA task keeps a pointer to a
  \<^verbatim>\<open>mapped_gpu_memory\<close> that may already be unlinked from the registry.
  A function that sleeps in \<^verbatim>\<open>schedule()\<close> is cut there into the part that runs
  before the sleep and the part that runs after the wake-up; every part runs
  under the slot mutex and is therefore one atomic step of the model.
  \<^verbatim>\<open>BUG_ON\<close> halts the kernel: the model returns \<open>BUG\<close>.
\<close>

subsection \<open>Kernel types and constants\<close>

type_synonym ulong = "64 word"
type_synonym u32 = "32 word"

text \<open>A \<^verbatim>\<open>struct task_struct *\<close> is only compared and woken: its identity suffices.\<close>
type_synonym task_struct = nat

datatype 'a kernel = BUG | Return 'a

text \<open>The errno values of \<^verbatim>\<open>asm-generic/errno-base.h\<close>.\<close>
definition ENOENT :: int where "ENOENT = 2"
definition EBADF :: int where "EBADF = 9"
definition ENOMEM :: int where "ENOMEM = 12"
definition EFAULT :: int where "EFAULT = 14"
definition EINVAL :: int where "EINVAL = 22"

definition GPU_BOUND_SHIFT :: nat where "GPU_BOUND_SHIFT = 16"
definition GPU_BOUND_SIZE :: ulong where "GPU_BOUND_SIZE = push_bit GPU_BOUND_SHIFT 1"
definition GPU_BOUND_OFFSET :: ulong where "GPU_BOUND_OFFSET = GPU_BOUND_SIZE - 1"
definition GPU_BOUND_MASK :: ulong where "GPU_BOUND_MASK = NOT GPU_BOUND_OFFSET"

text \<open>The largest value of a C \<^verbatim>\<open>int\<close> on the target (\<^verbatim>\<open>limits.h\<close>).\<close>
definition INT_MAX :: int where "INT_MAX = 2147483647"

definition MAPPED_GPU_MEMORY_NSLOTS :: nat where "MAPPED_GPU_MEMORY_NSLOTS = 48"
definition STROM_DMA_TASK_NSLOTS :: nat where "STROM_DMA_TASK_NSLOTS = 100"

text \<open>
  \<^verbatim>\<open>enum nvidia_p2p_page_size_type\<close> of NVIDIA's \<^verbatim>\<open>nv-p2p.h\<close>, which is included by
  the source but is not part of it.
\<close>
definition NVIDIA_P2P_PAGE_SIZE_4KB :: u32 where "NVIDIA_P2P_PAGE_SIZE_4KB = 0"
definition NVIDIA_P2P_PAGE_SIZE_64KB :: u32 where "NVIDIA_P2P_PAGE_SIZE_64KB = 1"
definition NVIDIA_P2P_PAGE_SIZE_128KB :: u32 where "NVIDIA_P2P_PAGE_SIZE_128KB = 2"

text \<open>
  \<^verbatim>\<open>nvidia_p2p_page_table_t\<close>.  The source only holds pointers to the tables of the
  GPU driver: \<open>pt_address\<close> is the address of the table object, which is its
  identity.  \<open>pt_pages\<close> holds the physical address of every entry of
  \<^verbatim>\<open>pages[]\<close>, and the field \<^verbatim>\<open>entries\<close> is their number.
\<close>
record nvidia_p2p_page_table =
  pt_address :: ulong
  pt_version :: u32
  pt_page_size :: u32
  pt_pages :: "ulong list"

definition pt_entries :: "nvidia_p2p_page_table \<Rightarrow> nat" where
  "pt_entries pt = length (pt_pages pt)"

subsection \<open>Mapped GPU memory\<close>

text \<open>
  \<^verbatim>\<open>struct mapped_gpu_memory\<close>, without its list node (the chains are kept in the
  slot arrays).  \<open>refcnt\<close> is a C \<^verbatim>\<open>int\<close> that counts the tasks using the segment.
  It is an unbounded integer here: \<^verbatim>\<open>refcnt++\<close> and \<^verbatim>\<open>refcnt--\<close> are what the source
  computes as long as the count stays below \<open>INT_MAX\<close>, that is, as long as fewer
  than \<open>2^31 - 1\<close> tasks hold the segment at once; at \<open>INT_MAX\<close> the C increment
  overflows and the integer here does not.
\<close>
record mapped_gpu_memory =
  refcnt :: int
  owner :: nat
  handle :: ulong
  map_address :: ulong
  map_offset :: ulong
  map_length :: ulong
  wait_task :: "task_struct option"
  page_size :: nat
  page_table :: "nvidia_p2p_page_table option"

text \<open>
  \<^verbatim>\<open>struct strom_dma_task\<close>.  \<open>mgmem\<close> is the pointer to the destination segment,
  \<open>dma_pages_list\<close> the chain of \<^verbatim>\<open>strom_dma_pages\<close>, each one the pages it pins.
  The chunk array (its type is declared in \<^verbatim>\<open>nvme-strom.h\<close>) is read by the copy
  loop only and is left out.
\<close>
record strom_dma_task =
  dma_task_id :: ulong
  mgmem :: ulong
  filp :: "nat option"
  dt_wait_task :: "task_struct option"
  dma_pages_list :: "nat list list"
  nchunks :: nat

text \<open>
  The state of the module and of the resources it holds:
  the two object stores (\<^verbatim>\<open>kmalloc\<close>/\<^verbatim>\<open>kfree\<close>), the two slot arrays with their
  chains of pointers (newest first, as \<^verbatim>\<open>list_add\<close> inserts at the head), the page
  tables pinned through \<^verbatim>\<open>nvidia_p2p_get_pages\<close> and not yet given back, the host
  pages pinned by \<^verbatim>\<open>get_user_pages_fast\<close> and not yet given back, and the logs of
  \<^verbatim>\<open>wake_up_process\<close> and \<^verbatim>\<open>fput\<close> calls (latest first).
\<close>
record strom_state =
  mgmem_heap :: "ulong \<rightharpoonup> mapped_gpu_memory"
  strom_mgmem_slots :: "nat \<Rightarrow> ulong list"
  p2p_pinned :: "(ulong \<times> nvidia_p2p_page_table) list"
  dtask_heap :: "ulong \<rightharpoonup> strom_dma_task"
  strom_dma_task_slots :: "nat \<Rightarrow> ulong list"
  pinned_pages :: "nat list"
  wakeups :: "task_struct list"
  fputs :: "nat list"

text \<open>The state after \<^verbatim>\<open>nvme_strom_init\<close>: every chain is empty.\<close>
definition nvme_strom_init :: strom_state where
  "nvme_strom_init =
     \<lparr>mgmem_heap = Map.empty, strom_mgmem_slots = (\<lambda>_. []), p2p_pinned = [],
      dtask_heap = Map.empty, strom_dma_task_slots = (\<lambda>_. []), pinned_pages = [],
      wakeups = [], fputs = []\<rparr>"

text \<open>
  \<^verbatim>\<open>arch_fast_hash\<close> is the kernel's and depends on the CPU; every function that
  hashes takes it as the parameter \<open>hf\<close> (key, seed).
\<close>
definition strom_mapped_gpu_memory_index :: "(ulong \<Rightarrow> u32 \<Rightarrow> u32) \<Rightarrow> ulong \<Rightarrow> nat" where
  "strom_mapped_gpu_memory_index hf h = unat (hf h 0x20140702) mod MAPPED_GPU_MEMORY_NSLOTS"

text \<open>
  \<^verbatim>\<open>list_for_each_entry\<close> with the test \<^verbatim>\<open>mgmem->handle != handle\<close>: the first entry
  of the chain whose handle matches.  An entry that is no longer allocated would be
  a read of freed memory; the model halts there.
\<close>
fun find_mgmem ::
  "(ulong \<rightharpoonup> mapped_gpu_memory) \<Rightarrow> ulong \<Rightarrow> ulong list \<Rightarrow> (ulong \<times> mapped_gpu_memory) option kernel"
where
  "find_mgmem hp h [] = Return None"
| "find_mgmem hp h (p # ps) =
     (case hp p of
        None \<Rightarrow> BUG
      | Some m \<Rightarrow> if handle m \<noteq> h then find_mgmem hp h ps else Return (Some (p, m)))"

definition strom_get_mapped_gpu_memory ::
  "(ulong \<Rightarrow> u32 \<Rightarrow> u32) \<Rightarrow> ulong \<Rightarrow> strom_state \<Rightarrow> (ulong option \<times> strom_state) kernel"
where
  "strom_get_mapped_gpu_memory hf h s =
     (let index = strom_mapped_gpu_memory_index hf h in
      case find_mgmem (mgmem_heap s) h (strom_mgmem_slots s index) of
        BUG \<Rightarrow> BUG
      | Return None \<Rightarrow> Return (None, s)
      | Return (Some (p, m)) \<Rightarrow>
          if p \<noteq> h then BUG
          else if page_table m = None then BUG
          else Return (Some p,
                 s\<lparr>mgmem_heap := (mgmem_heap s)(p \<mapsto> m\<lparr>refcnt := refcnt m + 1\<rparr>)\<rparr>))"

text \<open>\<^verbatim>\<open>__strom_put_mapped_gpu_memory\<close>, on the segment at address \<open>p\<close>.\<close>
definition strom_put_mapped_gpu_memory_locked :: "ulong \<Rightarrow> strom_state \<Rightarrow> strom_state kernel" where
  "strom_put_mapped_gpu_memory_locked p s =
     (case mgmem_heap s p of
        None \<Rightarrow> BUG
      | Some m \<Rightarrow>
          if refcnt m < 1 then BUG
          else
            let m1 = m\<lparr>refcnt := refcnt m - 1\<rparr> in
            (case wait_task m1 of
               Some t \<Rightarrow>
                 if refcnt m1 = 0
                 then Return (s\<lparr>mgmem_heap := (mgmem_heap s)(p \<mapsto> m1\<lparr>wait_task := None\<rparr>),
                                wakeups := t # wakeups s\<rparr>)
                 else Return (s\<lparr>mgmem_heap := (mgmem_heap s)(p \<mapsto> m1)\<rparr>)
             | None \<Rightarrow> Return (s\<lparr>mgmem_heap := (mgmem_heap s)(p \<mapsto> m1)\<rparr>)))"

text \<open>\<^verbatim>\<open>strom_put_mapped_gpu_memory\<close> takes the slot mutex around the former.\<close>
definition strom_put_mapped_gpu_memory :: "ulong \<Rightarrow> strom_state \<Rightarrow> strom_state kernel" where
  "strom_put_mapped_gpu_memory p s = strom_put_mapped_gpu_memory_locked p s"

subsection \<open>Unmapping: \<^verbatim>\<open>__strom_clenup_mapped_gpu_memory\<close>\<close>

text \<open>
  \<^verbatim>\<open>__nvidia_p2p_free_page_table\<close> is called with the pointer to a table and gives
  back the pin of the table at that address; \<^verbatim>\<open>__nvidia_p2p_put_pages\<close> gives back
  the table pinned for that virtual address.  Their return codes are only printed
  by the source.
\<close>
fun free_page_table ::
  "nvidia_p2p_page_table \<Rightarrow> (ulong \<times> nvidia_p2p_page_table) list \<Rightarrow> (ulong \<times> nvidia_p2p_page_table) list"
where
  "free_page_table pt [] = []"
| "free_page_table pt ((a, t) # xs) =
     (if pt_address t = pt_address pt then xs else (a, t) # free_page_table pt xs)"

definition nvidia_p2p_put_pages ::
  "ulong \<Rightarrow> nvidia_p2p_page_table \<Rightarrow> (ulong \<times> nvidia_p2p_page_table) list \<Rightarrow> (ulong \<times> nvidia_p2p_page_table) list"
where
  "nvidia_p2p_put_pages a pt xs = remove1 (a, pt) xs"

text \<open>
  What the function returns to its caller, or that it went to sleep in
  \<^verbatim>\<open>schedule()\<close>, holding the pointer to the unlinked segment and
  \<^verbatim>\<open>wait_task_saved\<close> in its frame.
\<close>
datatype clenup_result = Finished int | Sleeping ulong "task_struct option"

text \<open>The tail of the function, from \<^verbatim>\<open>__nvidia_p2p_free_page_table\<close> to \<^verbatim>\<open>return 0\<close>.\<close>
definition strom_clenup_release :: "ulong \<Rightarrow> strom_state \<Rightarrow> (clenup_result \<times> strom_state) kernel" where
  "strom_clenup_release p s =
     (case mgmem_heap s p of
        None \<Rightarrow> BUG
      | Some m \<Rightarrow>
          (case page_table m of
             None \<Rightarrow> BUG
           | Some pt \<Rightarrow>
               Return (Finished 0,
                 s\<lparr>p2p_pinned := free_page_table pt (p2p_pinned s),
                   mgmem_heap := (mgmem_heap s)(p := None)\<rparr>)))"

text \<open>
  From \<^verbatim>\<open>mutex_lock\<close> to either the return or the \<^verbatim>\<open>schedule()\<close>; \<open>current\<close>
  is the calling task.  The explicit unmap and the revocation callback
  \<^verbatim>\<open>strom_cleanup_mapped_gpu_memory\<close> both run exactly this.
\<close>
definition strom_clenup_mapped_gpu_memory ::
  "(ulong \<Rightarrow> u32 \<Rightarrow> u32) \<Rightarrow> task_struct \<Rightarrow> ulong \<Rightarrow> strom_state \<Rightarrow> (clenup_result \<times> strom_state) kernel"
where
  "strom_clenup_mapped_gpu_memory hf current h s =
     (let index = strom_mapped_gpu_memory_index hf h in
      case find_mgmem (mgmem_heap s) h (strom_mgmem_slots s index) of
        BUG \<Rightarrow> BUG
      | Return None \<Rightarrow> Return (Finished (- ENOENT), s)
      | Return (Some (p, m)) \<Rightarrow>
          if p \<noteq> h then BUG
          else if page_table m = None then BUG
          else
            let s1 = s\<lparr>strom_mgmem_slots :=
                         (strom_mgmem_slots s)(index := remove1 p (strom_mgmem_slots s index))\<rparr>
            in
            if refcnt m > 0
            then Return (Sleeping p (wait_task m),
                   s1\<lparr>mgmem_heap := (mgmem_heap s1)(p \<mapsto> m\<lparr>wait_task := Some current\<rparr>)\<rparr>)
            else strom_clenup_release p s1)"

text \<open>
  From the return of \<^verbatim>\<open>schedule()\<close> on: wake the saved waiter, take the mutex,
  \<^verbatim>\<open>BUG_ON(mgmem->refcnt == 0)\<close>, release.
\<close>
definition strom_clenup_mapped_gpu_memory_resume ::
  "ulong \<Rightarrow> task_struct option \<Rightarrow> strom_state \<Rightarrow> (clenup_result \<times> strom_state) kernel"
where
  "strom_clenup_mapped_gpu_memory_resume p wait_task_saved s =
     (let s1 = (case wait_task_saved of None \<Rightarrow> s | Some t \<Rightarrow> s\<lparr>wakeups := t # wakeups s\<rparr>) in
      case mgmem_heap s1 p of
        None \<Rightarrow> BUG
      | Some m \<Rightarrow> if refcnt m = 0 then BUG else strom_clenup_release p s1)"

subsection \<open>Mapping: \<^verbatim>\<open>strom_ioctl_map_gpu_memory\<close>\<close>

text \<open>The input fields of \<^verbatim>\<open>StromCmd__MapGpuMemory\<close>.\<close>
record StromCmd_MapGpuMemory =
  vaddress :: ulong
  length_arg :: ulong

text \<open>
  What the environment answers during one call: the argument read by
  \<^verbatim>\<open>copy_from_user\<close> (\<open>None\<close> when it faults), the address \<^verbatim>\<open>kmalloc\<close> returns
  (\<open>None\<close> for \<^verbatim>\<open>NULL\<close>), the return code and page table of
  \<^verbatim>\<open>__nvidia_p2p_get_pages\<close>, and whether \<^verbatim>\<open>put_user\<close> of the handle faults.
\<close>
record map_env =
  copy_from_user :: "StromCmd_MapGpuMemory option"
  kmalloc :: "ulong option"
  get_pages_rc :: int
  get_pages_table :: nvidia_p2p_page_table
  put_user_fault :: bool

text \<open>The \<^verbatim>\<open>switch\<close> on \<^verbatim>\<open>page_table->page_size\<close>; \<open>None\<close> is its \<^verbatim>\<open>default\<close> branch.\<close>
definition page_size_in_bytes :: "u32 \<Rightarrow> nat option" where
  "page_size_in_bytes e =
     (if e = NVIDIA_P2P_PAGE_SIZE_4KB then Some (4 * 1024)
      else if e = NVIDIA_P2P_PAGE_SIZE_64KB then Some (64 * 1024)
      else if e = NVIDIA_P2P_PAGE_SIZE_128KB then Some (128 * 1024)
      else None)"

text \<open>
  The result is the return code, the handle stored into \<^verbatim>\<open>uarg->handle\<close> if any,
  and the new state.  \<open>tgid\<close> is \<^verbatim>\<open>current->tgid\<close>.  The memory \<^verbatim>\<open>kmalloc\<close>
  returns is not initialised: \<open>page_size\<close> and \<open>page_table\<close> start here as \<open>0\<close>
  and \<^verbatim>\<open>NULL\<close> and are written before they are read.  The \<^verbatim>\<open>printk\<close> loop has no
  effect on the state.
\<close>
definition strom_ioctl_map_gpu_memory ::
  "(ulong \<Rightarrow> u32 \<Rightarrow> u32) \<Rightarrow> nat \<Rightarrow> map_env \<Rightarrow> strom_state \<Rightarrow> int \<times> ulong option \<times> strom_state"
where
  "strom_ioctl_map_gpu_memory hf tgid env s =
     (case copy_from_user env of
        None \<Rightarrow> (- EFAULT, None, s)
      | Some karg \<Rightarrow>
     (case kmalloc env of
        None \<Rightarrow> (- ENOMEM, None, s)
      | Some p \<Rightarrow>
          let map_address' = vaddress karg AND GPU_BOUND_MASK;
              map_offset' = vaddress karg AND GPU_BOUND_OFFSET;
              m = \<lparr>refcnt = 0, owner = tgid, handle = p, map_address = map_address',
                   map_offset = map_offset', map_length = map_offset' + length_arg karg,
                   wait_task = None, page_size = 0, page_table = None\<rparr>;
              s1 = s\<lparr>mgmem_heap := (mgmem_heap s)(p \<mapsto> m)\<rparr>;
              error_1 = (\<lambda>rc st. (rc, None, st\<lparr>mgmem_heap := (mgmem_heap st)(p := None)\<rparr>))
          in
          if get_pages_rc env \<noteq> 0 then error_1 (get_pages_rc env) s1
          else
            let pt = get_pages_table env;
                m2 = m\<lparr>page_table := Some pt\<rparr>;
                s2 = s1\<lparr>mgmem_heap := (mgmem_heap s1)(p \<mapsto> m2),
                        p2p_pinned := (map_address m, pt) # p2p_pinned s1\<rparr>;
                error_2 = (\<lambda>rc st.
                   error_1 rc (st\<lparr>p2p_pinned := nvidia_p2p_put_pages (map_address m) pt (p2p_pinned st)\<rparr>))
            in
            (case page_size_in_bytes (pt_page_size pt) of
               None \<Rightarrow> error_2 (- EINVAL) s2
             | Some sz \<Rightarrow>
                 let m3 = m2\<lparr>page_size := sz\<rparr>;
                     s3 = s2\<lparr>mgmem_heap := (mgmem_heap s2)(p \<mapsto> m3)\<rparr>
                 in
                 if put_user_fault env then error_2 (- EFAULT) s3
                 else
                   let index = strom_mapped_gpu_memory_index hf (handle m3) in
                   (0, Some (handle m3),
                    s3\<lparr>strom_mgmem_slots :=
                         (strom_mgmem_slots s3)(index := p # strom_mgmem_slots s3 index)\<rparr>))))"

text \<open>
  The same function statement by statement: the states it goes through, in order,
  after the one it starts in, with the return code and the handle stored for the
  caller.  The states are those after the initialisation of the new structure, after
  \<^verbatim>\<open>__nvidia_p2p_get_pages\<close>, after the \<^verbatim>\<open>switch\<close>, and then either after
  \<^verbatim>\<open>list_add\<close>, or after \<^verbatim>\<open>__nvidia_p2p_put_pages\<close> (label \<^verbatim>\<open>error_2\<close>) and after
  \<^verbatim>\<open>kfree\<close> (label \<^verbatim>\<open>error_1\<close>).  The slot mutex is taken around \<^verbatim>\<open>list_add\<close>
  only, so any other task may look at the registry in any of these states.
\<close>
definition strom_ioctl_map_gpu_memory_steps ::
  "(ulong \<Rightarrow> u32 \<Rightarrow> u32) \<Rightarrow> nat \<Rightarrow> map_env \<Rightarrow> strom_state \<Rightarrow> strom_state list \<times> int \<times> ulong option"
where
  "strom_ioctl_map_gpu_memory_steps hf tgid env s =
     (case copy_from_user env of
        None \<Rightarrow> ([], - EFAULT, None)
      | Some karg \<Rightarrow>
     (case kmalloc env of
        None \<Rightarrow> ([], - ENOMEM, None)
      | Some p \<Rightarrow>
          let map_address' = vaddress karg AND GPU_BOUND_MASK;
              map_offset' = vaddress karg AND GPU_BOUND_OFFSET;
              m = \<lparr>refcnt = 0, owner = tgid, handle = p, map_address = map_address',
                   map_offset = map_offset', map_length = map_offset' + length_arg karg,
                   wait_task = None, page_size = 0, page_table = None\<rparr>;
              s1 = s\<lparr>mgmem_heap := (mgmem_heap s)(p \<mapsto> m)\<rparr>;
              kfree = (\<lambda>st. st\<lparr>mgmem_heap := (mgmem_heap st)(p := None)\<rparr>)
          in
          if get_pages_rc env \<noteq> 0 then ([s1, kfree s1], get_pages_rc env, None)
          else
            let pt = get_pages_table env;
                m2 = m\<lparr>page_table := Some pt\<rparr>;
                s2 = s1\<lparr>mgmem_heap := (mgmem_heap s1)(p \<mapsto> m2),
                        p2p_pinned := (map_address m, pt) # p2p_pinned s1\<rparr>;
                put_pages = (\<lambda>st.
                   st\<lparr>p2p_pinned := nvidia_p2p_put_pages (map_address m) pt (p2p_pinned st)\<rparr>)
            in
            (case page_size_in_bytes (pt_page_size pt) of
               None \<Rightarrow> ([s1, s2, put_pages s2, kfree (put_pages s2)], - EINVAL, None)
             | Some sz \<Rightarrow>
                 let m3 = m2\<lparr>page_size := sz\<rparr>;
                     s3 = s2\<lparr>mgmem_heap := (mgmem_heap s2)(p \<mapsto> m3)\<rparr>
                 in
                 if put_user_fault env
                 then ([s1, s2, s3, put_pages s3, kfree (put_pages s3)], - EFAULT, None)
                 else
                   let index = strom_mapped_gpu_memory_index hf (handle m3) in
                   ([s1, s2, s3,
                     s3\<lparr>strom_mgmem_slots :=
                          (strom_mgmem_slots s3)(index := p # strom_mgmem_slots s3 index)\<rparr>],
                    0, Some (handle m3)))))"

text \<open>\<^verbatim>\<open>strom_ioctl_unmap_gpu_memory\<close>: \<open>karg\<close> is the handle read from the caller, if readable.\<close>
definition strom_ioctl_unmap_gpu_memory ::
  "(ulong \<Rightarrow> u32 \<Rightarrow> u32) \<Rightarrow> task_struct \<Rightarrow> ulong option \<Rightarrow> strom_state \<Rightarrow> (clenup_result \<times> strom_state) kernel"
where
  "strom_ioctl_unmap_gpu_memory hf current karg s =
     (case karg of
        None \<Rightarrow> Return (Finished (- EFAULT), s)
      | Some h \<Rightarrow> strom_clenup_mapped_gpu_memory hf current h s)"

subsection \<open>Query: \<^verbatim>\<open>strom_ioctl_info_gpu_memory\<close>\<close>

text \<open>
  The environment of one query: the head of \<^verbatim>\<open>StromCmd__InfoGpuMemory\<close> read by
  \<^verbatim>\<open>copy_from_user\<close> (handle and \<^verbatim>\<open>nrooms\<close>; \<open>None\<close> when it faults), whether
  \<^verbatim>\<open>copy_to_user\<close> of the head faults, and at which indexes \<^verbatim>\<open>put_user\<close> into
  \<^verbatim>\<open>physical_address[]\<close> faults.
\<close>
record info_env =
  info_copy_from_user :: "(ulong \<times> nat) option"
  copy_to_user_fault :: bool
  put_user_fault_at :: "nat \<Rightarrow> bool"

text \<open>
  What the caller's buffer holds afterwards: the head (version, page size, entries)
  if it was written, and the elements of \<^verbatim>\<open>physical_address[]\<close> written, which
  are always the indexes \<open>0, 1, \<dots>\<close> in order.
\<close>
record info_out =
  out_head :: "(u32 \<times> nat \<times> nat) option"
  out_physical_address :: "ulong list"

text \<open>
  The \<^verbatim>\<open>for\<close> loop over the entries, at index \<open>i\<close> with the entries from \<open>i\<close> on
  still to visit.  The index is a natural number: the C \<^verbatim>\<open>int\<close> counter does not
  overflow on a table of fewer than \<open>2^31\<close> pages.
\<close>
fun info_put_pages ::
  "(nat \<Rightarrow> bool) \<Rightarrow> nat \<Rightarrow> nat \<Rightarrow> ulong list \<Rightarrow> int \<Rightarrow> ulong list \<Rightarrow> int \<times> ulong list"
where
  "info_put_pages fault nrooms i [] rc out = (rc, out)"
| "info_put_pages fault nrooms i (a # as) rc out =
     (if i \<ge> nrooms then (rc, out)
      else if fault i then (- EFAULT, out)
      else info_put_pages fault nrooms (i + 1) as rc (out @ [a]))"

definition strom_ioctl_info_gpu_memory ::
  "(ulong \<Rightarrow> u32 \<Rightarrow> u32) \<Rightarrow> info_env \<Rightarrow> strom_state \<Rightarrow> (int \<times> info_out \<times> strom_state) kernel"
where
  "strom_ioctl_info_gpu_memory hf env s =
     (case info_copy_from_user env of
        None \<Rightarrow> Return (- EFAULT, \<lparr>out_head = None, out_physical_address = []\<rparr>, s)
      | Some (h, nrooms) \<Rightarrow>
     (case strom_get_mapped_gpu_memory hf h s of
        BUG \<Rightarrow> BUG
      | Return (None, s1) \<Rightarrow>
          Return (- ENOENT, \<lparr>out_head = None, out_physical_address = []\<rparr>, s1)
      | Return (Some p, s1) \<Rightarrow>
     (case mgmem_heap s1 p of
        None \<Rightarrow> BUG
      | Some m \<Rightarrow>
     (case page_table m of
        None \<Rightarrow> BUG
      | Some pt \<Rightarrow>
          let rc0 = (if copy_to_user_fault env then - EFAULT else 0);
              head = (if copy_to_user_fault env then None
                      else Some (pt_version pt, page_size m, pt_entries pt));
              (rc, out) = info_put_pages (put_user_fault_at env) nrooms 0 (pt_pages pt) rc0 []
          in
          (case strom_put_mapped_gpu_memory p s1 of
             BUG \<Rightarrow> BUG
           | Return s2 \<Rightarrow>
               Return (rc, \<lparr>out_head = head, out_physical_address = out\<rparr>, s2))))))"

subsection \<open>DMA tasks\<close>

definition strom_dma_task_index :: "(ulong \<Rightarrow> u32 \<Rightarrow> u32) \<Rightarrow> ulong \<Rightarrow> nat" where
  "strom_dma_task_index hf dma_task_id' =
     unat (hf dma_task_id' 0x20120106) mod STROM_DMA_TASK_NSLOTS"

text \<open>\<^verbatim>\<open>list_for_each_entry\<close> with the test \<^verbatim>\<open>dtask->dma_task_id != dma_task_id\<close>.\<close>
fun find_dtask ::
  "(ulong \<rightharpoonup> strom_dma_task) \<Rightarrow> ulong \<Rightarrow> ulong list \<Rightarrow> (ulong \<times> strom_dma_task) option kernel"
where
  "find_dtask hp tid [] = Return None"
| "find_dtask hp tid (p # ps) =
     (case hp p of
        None \<Rightarrow> BUG
      | Some d \<Rightarrow> if dma_task_id d \<noteq> tid then find_dtask hp tid ps else Return (Some (p, d)))"

text \<open>
  \<^verbatim>\<open>strom_cleanup_dma_task\<close>: unlink, then \<^verbatim>\<open>strom_put_mapped_gpu_memory\<close>, \<^verbatim>\<open>fput\<close>,
  \<^verbatim>\<open>wake_up_process\<close>, \<^verbatim>\<open>kfree\<close>, in the order of the source.  Nothing here
  touches \<open>dma_pages_list\<close>.
\<close>
definition strom_cleanup_dma_task ::
  "(ulong \<Rightarrow> u32 \<Rightarrow> u32) \<Rightarrow> ulong \<Rightarrow> strom_state \<Rightarrow> strom_state kernel"
where
  "strom_cleanup_dma_task hf tid s =
     (let index = strom_dma_task_index hf tid in
      case find_dtask (dtask_heap s) tid (strom_dma_task_slots s index) of
        BUG \<Rightarrow> BUG
      | Return None \<Rightarrow> Return s
      | Return (Some (p, d)) \<Rightarrow>
          let s1 = s\<lparr>strom_dma_task_slots :=
                       (strom_dma_task_slots s)(index := remove1 p (strom_dma_task_slots s index))\<rparr>
          in
          (case strom_put_mapped_gpu_memory (mgmem d) s1 of
             BUG \<Rightarrow> BUG
           | Return s2 \<Rightarrow>
               let s3 = (case filp d of None \<Rightarrow> s2 | Some f \<Rightarrow> s2\<lparr>fputs := f # fputs s2\<rparr>);
                   s4 = (case dt_wait_task d of
                           None \<Rightarrow> s3
                         | Some t \<Rightarrow> s3\<lparr>wakeups := t # wakeups s3\<rparr>)
               in Return (s4\<lparr>dtask_heap := (dtask_heap s4)(p := None)\<rparr>)))"

text \<open>
  \<^verbatim>\<open>strom_memcpy_ssd2gpu_wait\<close> up to its return or its \<^verbatim>\<open>schedule()\<close>, where it
  holds \<^verbatim>\<open>wait_task_saved\<close>.
\<close>
datatype wait_result = Returned int | Waiting "task_struct option"

definition strom_memcpy_ssd2gpu_wait ::
  "(ulong \<Rightarrow> u32 \<Rightarrow> u32) \<Rightarrow> task_struct \<Rightarrow> ulong \<Rightarrow> strom_state \<Rightarrow> (wait_result \<times> strom_state) kernel"
where
  "strom_memcpy_ssd2gpu_wait hf current tid s =
     (let index = strom_dma_task_index hf tid in
      case find_dtask (dtask_heap s) tid (strom_dma_task_slots s index) of
        BUG \<Rightarrow> BUG
      | Return (Some (p, d)) \<Rightarrow>
          Return (Waiting (dt_wait_task d),
            s\<lparr>dtask_heap := (dtask_heap s)(p \<mapsto> d\<lparr>dt_wait_task := Some current\<rparr>)\<rparr>)
      | Return None \<Rightarrow> Return (Returned (- ENOENT), s))"

text \<open>
  The same function from the return of \<^verbatim>\<open>schedule()\<close> on: wake the saved waiter,
  the debug loop with its \<^verbatim>\<open>BUG_ON\<close>, \<^verbatim>\<open>return 0\<close>.
\<close>
definition strom_memcpy_ssd2gpu_wait_resume ::
  "(ulong \<Rightarrow> u32 \<Rightarrow> u32) \<Rightarrow> ulong \<Rightarrow> task_struct option \<Rightarrow> strom_state \<Rightarrow> (int \<times> strom_state) kernel"
where
  "strom_memcpy_ssd2gpu_wait_resume hf tid wait_task_saved s =
     (let s1 = (case wait_task_saved of None \<Rightarrow> s | Some t \<Rightarrow> s\<lparr>wakeups := t # wakeups s\<rparr>);
          index = strom_dma_task_index hf tid
      in
      case find_dtask (dtask_heap s1) tid (strom_dma_task_slots s1 index) of
        BUG \<Rightarrow> BUG
      | Return (Some e) \<Rightarrow> BUG
      | Return None \<Rightarrow> Return (0, s1))"

text \<open>
  \<^verbatim>\<open>strom_ioctl_memcpy_ssd2gpu_wait\<close>: \<open>karg\<close> is the task id read from the caller,
  \<open>None\<close> when \<^verbatim>\<open>copy_from_user\<close> faults.
\<close>
definition strom_ioctl_memcpy_ssd2gpu_wait ::
  "(ulong \<Rightarrow> u32 \<Rightarrow> u32) \<Rightarrow> task_struct \<Rightarrow> ulong option \<Rightarrow> strom_state \<Rightarrow> (wait_result \<times> strom_state) kernel"
where
  "strom_ioctl_memcpy_ssd2gpu_wait hf current karg s =
     (case karg of
        None \<Rightarrow> Return (Returned (- EFAULT), s)
      | Some tid \<Rightarrow> strom_memcpy_ssd2gpu_wait hf current tid s)"

subsection \<open>Interleavings of the operations on mapped GPU memory\<close>

text \<open>
  The operations on the registry of mapped segments, each one a critical section
  of the source: the map ioctl; the unmap ioctl or the revocation callback of the
  GPU driver, up to their return or their sleep; the rest of an unmap after it
  was woken up; acquire (\<^verbatim>\<open>strom_get_mapped_gpu_memory\<close>); and release
  (\<^verbatim>\<open>strom_put_mapped_gpu_memory\<close>).
\<close>
datatype strom_op =
    MapGpuMemory nat map_env
  | UnmapGpuMemory task_struct ulong
  | UnmapWokenUp ulong "task_struct option"
  | Acquire ulong
  | Release ulong

datatype op_result =
    Mapped int "ulong option"
  | Unmapped clenup_result
  | Acquired "ulong option"
  | Released

fun step ::
  "(ulong \<Rightarrow> u32 \<Rightarrow> u32) \<Rightarrow> strom_op \<Rightarrow> strom_state \<Rightarrow> (op_result \<times> strom_state) kernel"
where
  "step hf (MapGpuMemory tgid env) s =
     (case strom_ioctl_map_gpu_memory hf tgid env s of (rc, ho, s') \<Rightarrow> Return (Mapped rc ho, s'))"
| "step hf (UnmapGpuMemory current h) s =
     (case strom_clenup_mapped_gpu_memory hf current h s of
        BUG \<Rightarrow> BUG
      | Return (r, s') \<Rightarrow> Return (Unmapped r, s'))"
| "step hf (UnmapWokenUp p wait_task_saved) s =
     (case strom_clenup_mapped_gpu_memory_resume p wait_task_saved s of
        BUG \<Rightarrow> BUG
      | Return (r, s') \<Rightarrow> Return (Unmapped r, s'))"
| "step hf (Acquire h) s =
     (case strom_get_mapped_gpu_memory hf h s of
        BUG \<Rightarrow> BUG
      | Return (r, s') \<Rightarrow> Return (Acquired r, s'))"
| "step hf (Release p) s =
     (case strom_put_mapped_gpu_memory p s of
        BUG \<Rightarrow> BUG
      | Return s' \<Rightarrow> Return (Released, s'))"

text \<open>
  The handles that are mapped after an operation: a successful map adds the handle
  it returned, an unmap call removes its handle from the moment it has run its
  critical section.
\<close>
fun mapped_after :: "strom_op \<Rightarrow> op_result \<Rightarrow> ulong set \<Rightarrow> ulong set" where
  "mapped_after (MapGpuMemory tgid env) (Mapped rc (Some h)) M = insert h M"
| "mapped_after (UnmapGpuMemory current h) r M = M - {h}"
| "mapped_after opn r M = M"

text \<open>The unmap calls asleep in \<^verbatim>\<open>schedule()\<close>, each with the frame it holds.\<close>
fun sleepers_after ::
  "strom_op \<Rightarrow> op_result \<Rightarrow> (ulong \<times> task_struct option) set \<Rightarrow> (ulong \<times> task_struct option) set"
where
  "sleepers_after (UnmapGpuMemory current h) (Unmapped (Sleeping p t)) W = insert (p, t) W"
| "sleepers_after (UnmapWokenUp p t) r W = W - {(p, t)}"
| "sleepers_after opn r W = W"

text \<open>
  What the environment guarantees: \<^verbatim>\<open>kmalloc\<close> returns memory that is not in use,
  and only a sleeping unmap can be woken up.
\<close>
fun enabled :: "strom_op \<Rightarrow> strom_state \<Rightarrow> (ulong \<times> task_struct option) set \<Rightarrow> bool" where
  "enabled (MapGpuMemory tgid env) s W =
     (case kmalloc env of None \<Rightarrow> True | Some p \<Rightarrow> mgmem_heap s p = None)"
| "enabled (UnmapWokenUp p t) s W = ((p, t) \<in> W)"
| "enabled opn s W = True"

text \<open>
  The states the module reaches from \<^verbatim>\<open>nvme_strom_init\<close> by any interleaving of
  these operations that does not halt the kernel, together with the set of mapped
  handles and the sleeping unmaps.
\<close>
inductive reachable ::
  "(ulong \<Rightarrow> u32 \<Rightarrow> u32) \<Rightarrow> strom_state \<Rightarrow> ulong set \<Rightarrow> (ulong \<times> task_struct option) set \<Rightarrow> bool"
  for hf :: "ulong \<Rightarrow> u32 \<Rightarrow> u32"
where
  reachable_init: "reachable hf nvme_strom_init {} {}"
| reachable_step:
    "reachable hf s M W \<Longrightarrow> enabled opn s W \<Longrightarrow> step hf opn s = Return (r, s') \<Longrightarrow>
     reachable hf s' (mapped_after opn r M) (sleepers_after opn r W)"





text \<open>Whether a lookup of the handle \<open>h\<close> finds an entry.\<close>
definition lookup_finds :: "(ulong \<Rightarrow> u32 \<Rightarrow> u32) \<Rightarrow> strom_state \<Rightarrow> ulong \<Rightarrow> bool" where
  "lookup_finds hf s h =
     (case strom_get_mapped_gpu_memory hf h s of
        BUG \<Rightarrow> False
      | Return (None, s') \<Rightarrow> False
      | Return (Some p, s') \<Rightarrow> True)"

text \<open>
  The handles linked into the registry: the entries of all chains, which is what
  \<^verbatim>\<open>strom_proc_open\<close> enumerates for the status file.
\<close>
definition registry :: "strom_state \<Rightarrow> ulong set" where
  "registry s = (\<Union>i<MAPPED_GPU_MEMORY_NSLOTS. set (strom_mgmem_slots s i))"

text \<open>
  The registry is well formed: no chain holds an entry twice, every entry is on the
  chain of its hash and is allocated, and every allocated segment carries its own
  address as handle, has a page table, and has a reference count that is not
  negative.
\<close>
definition registry_wf :: "(ulong \<Rightarrow> u32 \<Rightarrow> u32) \<Rightarrow> strom_state \<Rightarrow> bool" where
  "registry_wf hf s \<longleftrightarrow>
     (\<forall>i. distinct (strom_mgmem_slots s i)) \<and>
     (\<forall>i p. p \<in> set (strom_mgmem_slots s i) \<longrightarrow>
        i = strom_mapped_gpu_memory_index hf p \<and> mgmem_heap s p \<noteq> None) \<and>
     (\<forall>p m. mgmem_heap s p = Some m \<longrightarrow>
        handle m = p \<and> page_table m \<noteq> None \<and> 0 \<le> refcnt m)"

text \<open>
  A sleeping unmap holds a segment that is still allocated and no longer mapped, and
  no two sleeping unmaps hold the same segment.
\<close>
definition sleepers_wf ::
  "strom_state \<Rightarrow> ulong set \<Rightarrow> (ulong \<times> task_struct option) set \<Rightarrow> bool"
where
  "sleepers_wf s M W \<longleftrightarrow>
     (\<forall>p t. (p, t) \<in> W \<longrightarrow>
        mgmem_heap s p \<noteq> None \<and> p \<notin> M \<and> (\<forall>t'. (p, t') \<in> W \<longrightarrow> t' = t))"

text \<open>
  A task id is registered when an entry on the chain of its hash carries it; the
  chains are intact when each of their entries is allocated.
\<close>
definition dma_task_registered :: "(ulong \<Rightarrow> u32 \<Rightarrow> u32) \<Rightarrow> strom_state \<Rightarrow> ulong \<Rightarrow> bool" where
  "dma_task_registered hf s tid \<longleftrightarrow>
     (\<exists>p \<in> set (strom_dma_task_slots s (strom_dma_task_index hf tid)).
        \<exists>d. dtask_heap s p = Some d \<and> dma_task_id d = tid)"

definition dma_slots_allocated :: "strom_state \<Rightarrow> bool" where
  "dma_slots_allocated s \<longleftrightarrow> (\<forall>i. \<forall>p \<in> set (strom_dma_task_slots s i). dtask_heap s p \<noteq> None)"

subsection \<open>Projections and sample inputs\<close>

text \<open>The segment a successful map recorded under the handle it returned.\<close>
definition mapped_entry :: "int \<times> ulong option \<times> strom_state \<Rightarrow> mapped_gpu_memory option" where
  "mapped_entry r = (case r of (rc, Some h, s') \<Rightarrow> mgmem_heap s' h | (rc, None, s') \<Rightarrow> None)"

definition grid_aligned :: "ulong \<Rightarrow> bool" where
  "grid_aligned x \<longleftrightarrow> x AND GPU_BOUND_OFFSET = 0"

text \<open>A hash that puts every key on chain 0.\<close>
definition hash0 :: "ulong \<Rightarrow> u32 \<Rightarrow> u32" where
  "hash0 k seed = 0"

definition sample_table :: "u32 \<Rightarrow> nvidia_p2p_page_table" where
  "sample_table e =
     \<lparr>pt_address = 0x9000, pt_version = 1, pt_page_size = e,
      pt_pages = [0xA0000, 0xB0000, 0xC0000, 0xD0000, 0xE0000]\<rparr>"

text \<open>
  A request to map 256 KiB at the misaligned address \<open>0x10001\<close>; \<^verbatim>\<open>kmalloc\<close>
  answers \<open>0x1000\<close>, the driver pins a table of page-size class \<open>e\<close>, and
  \<^verbatim>\<open>put_user\<close> faults or not.
\<close>
definition sample_map :: "u32 \<Rightarrow> bool \<Rightarrow> map_env" where
  "sample_map e fault =
     \<lparr>copy_from_user = Some \<lparr>vaddress = 0x10001, length_arg = 0x40000\<rparr>,
      kmalloc = Some 0x1000, get_pages_rc = 0, get_pages_table = sample_table e,
      put_user_fault = fault\<rparr>"

text \<open>The segment this request records when it succeeds on 64 KiB pages.\<close>
definition sample_mgmem :: "int \<Rightarrow> task_struct option \<Rightarrow> mapped_gpu_memory" where
  "sample_mgmem n w =
     \<lparr>refcnt = n, owner = 7, handle = 0x1000, map_address = 0x10000, map_offset = 1,
      map_length = 0x40001, wait_task = w, page_size = 65536,
      page_table = Some (sample_table NVIDIA_P2P_PAGE_SIZE_64KB)\<rparr>"

text \<open>
  The state with that one segment allocated, holding \<open>n\<close> references and the waiter
  \<open>w\<close>, and linked into the registry or not.
\<close>
definition sample_state :: "int \<Rightarrow> task_struct option \<Rightarrow> bool \<Rightarrow> strom_state" where
  "sample_state n w linked =
     nvme_strom_init
       \<lparr>mgmem_heap := [0x1000 \<mapsto> sample_mgmem n w],
        strom_mgmem_slots := (\<lambda>i. if linked \<and> i = 0 then [0x1000] else []),
        p2p_pinned := [(0x10000, sample_table NVIDIA_P2P_PAGE_SIZE_64KB)]\<rparr>"

text \<open>
  A registered DMA task at address \<open>0x2000\<close> that holds one reference to the sample
  segment, the file \<open>3\<close>, two pinned host pages, and the waiter \<open>9\<close>.
\<close>
definition sample_dtask :: strom_dma_task where
  "sample_dtask =
     \<lparr>dma_task_id = 0x2000, mgmem = 0x1000, filp = Some 3, dt_wait_task = Some 9,
      dma_pages_list = [[101, 102]], nchunks = 1\<rparr>"

definition sample_dma_state :: strom_state where
  "sample_dma_state =
     (sample_state 1 None True)
       \<lparr>dtask_heap := [0x2000 \<mapsto> sample_dtask],
        strom_dma_task_slots := (\<lambda>i. if i = 0 then [0x2000] else []),
        pinned_pages := [101, 102]\<rparr>"

text \<open>A query of the sample segment by a caller with room for \<open>n\<close> entries.\<close>
definition sample_info :: "nat \<Rightarrow> info_env" where
  "sample_info n =
     \<lparr>info_copy_from_user = Some (0x1000, n), copy_to_user_fault = False,
      put_user_fault_at = (\<lambda>i. False)\<rparr>"

text \<open>The state \<^verbatim>\<open>strom_cleanup_dma_task\<close> leaves behind for the sample task.\<close>
definition sample_dma_done :: strom_state where
  "sample_dma_done =
     (sample_state 0 None True)\<lparr>pinned_pages := [101, 102], wakeups := [9], fputs := [3]\<rparr>"

subsection \<open>Coalescing of copy descriptors\<close>

text \<open>
  Modelled from the spec: the routine that merges source pages into copy descriptors
  (section 4.3).  It is missing from \<^verbatim>\<open>nvme-strom.c\<close>: \<^verbatim>\<open>submit_memcpy_page2gpu\<close> has
  only comments for a body, and \<^verbatim>\<open>__strom_memcpy_ssd2gpu_async\<close> calls
  \<^verbatim>\<open>submit_memcpy_mem2gpu\<close> and \<^verbatim>\<open>submit_mem2gpu\<close>, which nothing defines.
  A descriptor is one contiguous source extent and one contiguous destination
  extent: \<open>d_dst_off\<close> is the byte offset of the destination extent in the segment,
  \<open>d_dst_addr\<close> the physical address of its first byte.
\<close>
record dma_descriptor =
  d_src_addr :: nat
  d_src_len :: nat
  d_dst_off :: nat
  d_dst_addr :: "nat option"
  d_dst_len :: nat

text \<open>
  Modelled from the spec: the state \<^verbatim>\<open>DmaCopyState\<close> carried across the whole task:
  the page-grid size and the page table of the destination, the cursor
  \<^verbatim>\<open>dst_cursor\<close>, the pending destination extent and the pending source extent.
  \<open>submitted\<close> collects the descriptors handed to the copy engine, in order.
\<close>
record DmaCopyState =
  page_grid :: nat
  dst_pages :: "nat list"
  dst_cursor :: nat
  pending_dst_addr :: "nat option"
  pending_dst_len :: nat
  pending_src_addr :: nat
  pending_src_len :: nat
  submitted :: "dma_descriptor list"

text \<open>
  Modelled from the spec: step 2, the destination physical address at a cursor:
  the cursor divided by the page-grid size indexes the page table, the remainder
  is the offset in the page.  There is no address beyond the table.
\<close>
definition dst_physical :: "nat \<Rightarrow> nat list \<Rightarrow> nat \<Rightarrow> nat option" where
  "dst_physical G pages c =
     (if G = 0 \<or> length pages \<le> c div G then None
      else Some (pages ! (c div G) + c mod G))"

text \<open>Modelled from the spec: step 2 on the grid and the page table of the state.\<close>
definition resolve_dst :: "DmaCopyState \<Rightarrow> nat \<Rightarrow> nat option" where
  "resolve_dst st c = dst_physical (page_grid st) (dst_pages st) c"

text \<open>
  Modelled from the spec: the descriptor of the pending extents.  The cursor has
  already been advanced over the pending bytes (step 5), so the pending
  destination extent starts \<open>pending_dst_len\<close> bytes before it.
\<close>
definition pending_descriptor :: "DmaCopyState \<Rightarrow> dma_descriptor" where
  "pending_descriptor st =
     \<lparr>d_src_addr = pending_src_addr st, d_src_len = pending_src_len st,
      d_dst_off = dst_cursor st - pending_dst_len st,
      d_dst_addr = pending_dst_addr st, d_dst_len = pending_dst_len st\<rparr>"

text \<open>
  Modelled from the spec: flush of the pending extent: it is submitted and nothing
  is pending afterwards.  With nothing pending there is nothing to submit (the
  spec flushes "any remaining pending extent").
\<close>
definition flush :: "DmaCopyState \<Rightarrow> DmaCopyState" where
  "flush st =
     (if pending_dst_len st = 0 then st
      else st\<lparr>submitted := submitted st @ [pending_descriptor st],
              pending_src_len := 0, pending_dst_len := 0\<rparr>)"

text \<open>
  Modelled from the spec: start of a new pending extent at a source address; its
  destination physical address is resolved at the current cursor (step 2).
\<close>
definition begin_pending :: "DmaCopyState \<Rightarrow> nat \<Rightarrow> DmaCopyState" where
  "begin_pending st src =
     st\<lparr>pending_src_addr := src, pending_src_len := 0,
        pending_dst_addr := resolve_dst st (dst_cursor st), pending_dst_len := 0\<rparr>"

text \<open>
  Modelled from the spec: the first page-grid boundary after the start of the
  pending destination extent, where the extent would cross into a different
  page-table entry.
\<close>
definition next_boundary :: "DmaCopyState \<Rightarrow> nat" where
  "next_boundary st =
     ((dst_cursor st - pending_dst_len st) div page_grid st + 1) * page_grid st"

text \<open>
  Modelled from the spec: step 5, the pending source and destination extents grow
  by \<open>n\<close> bytes and the cursor advances.
\<close>
definition extend_by :: "DmaCopyState \<Rightarrow> nat \<Rightarrow> DmaCopyState" where
  "extend_by st n =
     st\<lparr>pending_src_len := pending_src_len st + n,
        pending_dst_len := pending_dst_len st + n,
        dst_cursor := dst_cursor st + n\<rparr>"

text \<open>
  Modelled from the spec: steps 4 and 5 for a unit of \<open>len\<close> bytes at source address
  \<open>src\<close>.  The unit is split when the extended pending extent would cross into a
  different page-table entry, that is when it would reach beyond
  \<open>next_boundary\<close>: the pending extent is extended up to the boundary and flushed,
  and a new pending extent begins for the remainder at the boundary, its
  destination address resolved again.  A boundary at the very start of the unit
  counts: in the spec's scenario of a 128 KiB chunk of host pages over 64 KiB
  destination pages the boundary falls between two pages and the spec expects
  the split.  The remainder is handled as a unit is (steps 4 and 5), so a
  remainder longer than a grid cell is split again; a remainder of a host page
  never is.  Without a grid (\<open>page_grid = 0\<close>) there is no boundary.
\<close>
function extend_pending :: "DmaCopyState \<Rightarrow> nat \<Rightarrow> nat \<Rightarrow> DmaCopyState" where
  "extend_pending st src len =
     (if 0 < page_grid st \<and> next_boundary st < dst_cursor st + len
      then
        let k = next_boundary st - dst_cursor st
        in extend_pending (begin_pending (flush (extend_by st k)) (src + k)) (src + k) (len - k)
      else extend_by st len)"
  by pat_completeness auto
termination
proof (relation "measure (\<lambda>(st, src, len). 2 * len + (if 0 < pending_dst_len st then 1 else 0))")
  show "wf (measure (\<lambda>(st, src, len). 2 * len + (if 0 < pending_dst_len st then 1 else 0)))"
    by simp
next
  fix st :: DmaCopyState and src len k :: nat
  assume c: "0 < page_grid st \<and> next_boundary st < dst_cursor st + len"
     and k: "k = next_boundary st - dst_cursor st"
  have "dst_cursor st - pending_dst_len st < next_boundary st"
    using c dividend_less_div_times [of "page_grid st" "dst_cursor st - pending_dst_len st"]
    by (simp add: next_boundary_def)
  then have "0 < k \<or> 0 < pending_dst_len st"
    using k by arith
  moreover have "pending_dst_len (begin_pending (flush (extend_by st k)) (src + k)) = 0"
    by (simp add: begin_pending_def)
  ultimately show "((begin_pending (flush (extend_by st k)) (src + k), src + k, len - k),
                    (st, src, len))
        \<in> measure (\<lambda>(st, src, len). 2 * len + (if 0 < pending_dst_len st then 1 else 0))"
    using c k by auto
qed

text \<open>
  Modelled from the spec: one unit of source data \<open>(source address, length)\<close>.
  Step 3: a unit that does not immediately follow
  \<open>pending_src_addr + pending_src_len\<close> flushes the pending descriptor and starts
  a new pending extent at the unit; then steps 4 and 5.
\<close>
definition feed :: "DmaCopyState \<Rightarrow> nat \<times> nat \<Rightarrow> DmaCopyState" where
  "feed st u =
     (let src = fst u; len = snd u;
          st1 = (if src \<noteq> pending_src_addr st + pending_src_len st
                 then begin_pending (flush st) src else st)
      in extend_pending st1 src len)"

text \<open>
  Modelled from the spec: the state at the start of a task whose destination range
  begins at offset \<open>c\<close>.  Nothing is pending, and the destination address is
  resolved at \<open>c\<close>, as the initialisation of \<^verbatim>\<open>strom_dma_state\<close> in
  \<^verbatim>\<open>__strom_memcpy_ssd2gpu_async\<close> has it (source address 0 and all sizes 0).
\<close>
definition dma_copy_init :: "nat \<Rightarrow> nat list \<Rightarrow> nat \<Rightarrow> DmaCopyState" where
  "dma_copy_init G pages c =
     \<lparr>page_grid = G, dst_pages = pages, dst_cursor = c,
      pending_dst_addr = dst_physical G pages c,
      pending_dst_len = 0, pending_src_addr = 0, pending_src_len = 0, submitted = []\<rparr>"

text \<open>
  Modelled from the spec: the engine on the units of one task, in order, with the
  flush of the remaining pending extent after the last unit.
\<close>
definition coalesce :: "nat \<Rightarrow> nat list \<Rightarrow> nat \<Rightarrow> (nat \<times> nat) list \<Rightarrow> dma_descriptor list" where
  "coalesce G pages c us = submitted (flush (foldl feed (dma_copy_init G pages c) us))"

text \<open>
  Modelled from the spec: the copy that a unit asks for, byte by byte, as pairs
  (source address, destination offset).
\<close>
primrec unit_bytes :: "nat \<Rightarrow> nat \<Rightarrow> nat \<Rightarrow> (nat \<times> nat) list" where
  "unit_bytes src dst 0 = []"
| "unit_bytes src dst (Suc n) = (src, dst) # unit_bytes (Suc src) (Suc dst) n"

text \<open>
  Modelled from the spec: the bytes of all units of a task, in the order in which
  they are fed, the first unit at destination offset \<open>c\<close>.
\<close>
fun copy_stream :: "nat \<Rightarrow> (nat \<times> nat) list \<Rightarrow> (nat \<times> nat) list" where
  "copy_stream c [] = []"
| "copy_stream c ((src, len) # us) = unit_bytes src c len @ copy_stream (c + len) us"

text \<open>
  Modelled from the spec: the maximal runs of "Coalescing correctness" (section 8).
  Two neighbouring bytes of the copy belong to the same run when they are
  contiguous in source address and in destination offset and no
  \<open>G\<close>-boundary of the destination lies between them.
\<close>
definition same_run :: "nat \<Rightarrow> nat \<times> nat \<Rightarrow> nat \<times> nat \<Rightarrow> bool" where
  "same_run G b b' \<longleftrightarrow>
     fst b' = fst b + 1 \<and> snd b' = snd b + 1 \<and> snd b' div G = snd b div G"

text \<open>
  Modelled from the spec: the number of maximal runs of a copy: one for the first
  byte and one more wherever a byte does not continue the run of the byte
  before it.
\<close>
fun maximal_runs :: "nat \<Rightarrow> (nat \<times> nat) list \<Rightarrow> nat" where
  "maximal_runs G [] = 0"
| "maximal_runs G [b] = 1"
| "maximal_runs G (b # b' # bs) =
     (if same_run G b b' then 0 else 1) + maximal_runs G (b' # bs)"











section \<open>Properties\<close>

subsection \<open>Evaluation of the sample inputs\<close>

lemmas sample_defs = sample_map_def sample_table_def nvme_strom_init_def hash0_def
  sample_mgmem_def sample_state_def sample_dtask_def sample_dma_state_def
  NVIDIA_P2P_PAGE_SIZE_64KB_def NVIDIA_P2P_PAGE_SIZE_4KB_def NVIDIA_P2P_PAGE_SIZE_128KB_def
  GPU_BOUND_MASK_def page_size_in_bytes_def
  strom_mapped_gpu_memory_index_def MAPPED_GPU_MEMORY_NSLOTS_def
  strom_dma_task_index_def STROM_DMA_TASK_NSLOTS_def
  ENOENT_def EFAULT_def EINVAL_def ENOMEM_def

lemma GPU_BOUND_OFFSET_val: "GPU_BOUND_OFFSET = 0xFFFF"
  by (simp add: GPU_BOUND_OFFSET_def GPU_BOUND_SIZE_def GPU_BOUND_SHIFT_def)

lemma sample_map_result:
  "strom_ioctl_map_gpu_memory hash0 7 (sample_map NVIDIA_P2P_PAGE_SIZE_64KB False) nvme_strom_init
     = (0, Some 0x1000, sample_state 0 None True)"
  by (simp add: strom_ioctl_map_gpu_memory_def Let_def sample_defs GPU_BOUND_OFFSET_val fun_eq_iff)

subsection \<open>The aligned covering range of a mapping\<close>

lemma GPU_BOUND_OFFSET_mask: "GPU_BOUND_OFFSET = mask 16"
  by (simp add: GPU_BOUND_OFFSET_val mask_eq_exp_minus_1)

lemma offset_mod: "unat (v AND GPU_BOUND_OFFSET) = unat v mod 65536"
proof -
  have "v AND GPU_BOUND_OFFSET = take_bit 16 v"
    by (simp only: GPU_BOUND_OFFSET_mask take_bit_eq_mask)
  moreover have "unat (take_bit 16 v) = take_bit 16 (unat v)"
    by (rule unsigned_take_bit_eq)
  ultimately show ?thesis
    by (simp only: take_bit_eq_mod) simp
qed

lemma base_plus_offset: "(v AND GPU_BOUND_MASK) + (v AND GPU_BOUND_OFFSET) = v"
  unfolding GPU_BOUND_MASK_def
  by (metis (no_types, lifting) disjunctive_add_eq_or or_eq_not_not_and
    word_and_not word_ao_absorbs(2) word_oa_dist2)

lemma base_aligned: "unat (v AND GPU_BOUND_MASK) mod 65536 = 0"
proof -
  have "(v AND GPU_BOUND_MASK) AND GPU_BOUND_OFFSET = 0"
    by (simp add: GPU_BOUND_MASK_def and.assoc)
  then have "unat ((v AND GPU_BOUND_MASK) AND GPU_BOUND_OFFSET) = 0" by simp
  then show ?thesis by (simp only: offset_mod)
qed

lemma range_no_wrap:
  assumes a: "unat (v::ulong) + unat (l::ulong) < 2 ^ 64"
  shows "unat (v AND GPU_BOUND_MASK) + unat ((v AND GPU_BOUND_OFFSET) + l) = unat v + unat l"
proof -
  have le: "unat (v AND GPU_BOUND_OFFSET) \<le> unat v"
    by (simp add: offset_mod)
  have 1: "unat ((v AND GPU_BOUND_OFFSET) + l) = unat (v AND GPU_BOUND_OFFSET) + unat l"
    using a le by (simp add: unat_add_lem [THEN iffD1])
  have "v AND GPU_BOUND_MASK = v - (v AND GPU_BOUND_OFFSET)"
    using base_plus_offset [of v] by (simp add: algebra_simps)
  moreover have "v AND GPU_BOUND_OFFSET \<le> v"
    using le by (simp add: word_le_nat_alt)
  ultimately have "unat (v AND GPU_BOUND_MASK) = unat v - unat (v AND GPU_BOUND_OFFSET)"
    by (simp add: unat_sub)
  with 1 le show ?thesis by simp
qed

lemma map_success_entry:
  assumes "copy_from_user env = Some karg"
      and "mapped_entry (strom_ioctl_map_gpu_memory hf tgid env s) = Some m"
  shows "map_offset m = vaddress karg AND GPU_BOUND_OFFSET \<and>
         map_address m = vaddress karg AND GPU_BOUND_MASK \<and>
         map_length m = map_offset m + length_arg karg"
  using assms
  by (auto simp: mapped_entry_def strom_ioctl_map_gpu_memory_def Let_def
      split: option.splits if_splits)

text \<open>
  C3, as the claim states it, fails: mapping 256 KiB at \<open>0x10001\<close> on 64 KiB pages
  records \<open>map_length = 0x40001\<close>, which is no multiple of the page grid.
\<close>
theorem map_length_not_rounded:
  "map_option map_length
     (mapped_entry (strom_ioctl_map_gpu_memory hash0 7
        (sample_map NVIDIA_P2P_PAGE_SIZE_64KB False) nvme_strom_init)) = Some 0x40001
   \<and> \<not> grid_aligned 0x40001"
  unfolding sample_map_result mapped_entry_def
  by (simp add: grid_aligned_def sample_state_def sample_mgmem_def GPU_BOUND_OFFSET_val)

text \<open>
  C3, amended: the segment recorded by a successful map of \<open>(vaddress, length)\<close> has
  \<open>map_offset = vaddress mod 65536\<close>, a base \<open>map_address\<close> on the 64 KiB grid with
  \<open>map_address + map_offset = vaddress\<close>, and \<open>map_length = map_offset + length\<close>
  without any rounding, so that the mapped range starts at the aligned base and
  ends exactly at \<open>vaddress + length\<close> (as numbers too, when that sum fits 64 bits).
\<close>
theorem map_offset_and_length:
  assumes "copy_from_user env = Some karg"
      and "mapped_entry (strom_ioctl_map_gpu_memory hf tgid env s) = Some m"
  shows "unat (map_offset m) = unat (vaddress karg) mod 65536 \<and>
         unat (map_address m) mod 65536 = 0 \<and>
         map_address m + map_offset m = vaddress karg \<and>
         map_length m = map_offset m + length_arg karg \<and>
         map_address m + map_length m = vaddress karg + length_arg karg \<and>
         (unat (vaddress karg) + unat (length_arg karg) < 2 ^ 64 \<longrightarrow>
            unat (map_address m) + unat (map_length m)
              = unat (vaddress karg) + unat (length_arg karg))"
proof -
  note e = map_success_entry [OF assms]
  have "map_address m + map_length m = vaddress karg + length_arg karg"
    using e base_plus_offset [of "vaddress karg"] by (simp add: add.assoc [symmetric])
  then show ?thesis
    using e by (simp add: offset_mod base_aligned base_plus_offset range_no_wrap)
qed

theorem map_offset_and_length_witness:
  "copy_from_user (sample_map NVIDIA_P2P_PAGE_SIZE_64KB False)
     = Some \<lparr>vaddress = 0x10001, length_arg = 0x40000\<rparr> \<and>
   mapped_entry (strom_ioctl_map_gpu_memory hash0 7
     (sample_map NVIDIA_P2P_PAGE_SIZE_64KB False) nvme_strom_init) = Some (sample_mgmem 0 None) \<and>
   unat (map_offset (sample_mgmem 0 None)) = unat (0x10001 :: ulong) mod 65536 \<and>
   map_length (sample_mgmem 0 None) = map_offset (sample_mgmem 0 None) + 0x40000 \<and>
   unat (map_address (sample_mgmem 0 None)) + unat (map_length (sample_mgmem 0 None))
     = unat (0x10001 :: ulong) + unat (0x40000 :: ulong)"
  using map_offset_and_length [of "sample_map NVIDIA_P2P_PAGE_SIZE_64KB False"
      "\<lparr>vaddress = 0x10001, length_arg = 0x40000\<rparr>" hash0 7 nvme_strom_init "sample_mgmem 0 None"]
  unfolding sample_map_result mapped_entry_def
  by (simp add: sample_state_def sample_map_def sample_mgmem_def)

subsection \<open>Failure paths of mapping\<close>

lemma page_size_unsupported:
  "page_size_in_bytes e = None \<longleftrightarrow>
     e \<notin> {NVIDIA_P2P_PAGE_SIZE_4KB, NVIDIA_P2P_PAGE_SIZE_64KB, NVIDIA_P2P_PAGE_SIZE_128KB}"
  by (simp add: page_size_in_bytes_def)

lemma kfree_fresh:
  "mgmem_heap s p = None \<Longrightarrow> s\<lparr>mgmem_heap := (mgmem_heap s)(p := None)\<rparr> = s"
  by (simp add: fun_upd_idem)

lemma map_after_pin:
  assumes "copy_from_user env = Some karg" and "kmalloc env = Some p"
      and "mgmem_heap s p = None" and "get_pages_rc env = 0"
  shows "(page_size_in_bytes (pt_page_size (get_pages_table env)) = None \<longrightarrow>
            strom_ioctl_map_gpu_memory hf tgid env s = (- EINVAL, None, s)) \<and>
         (page_size_in_bytes (pt_page_size (get_pages_table env)) \<noteq> None \<and> put_user_fault env \<longrightarrow>
            strom_ioctl_map_gpu_memory hf tgid env s = (- EFAULT, None, s)) \<and>
         (page_size_in_bytes (pt_page_size (get_pages_table env)) \<noteq> None \<and> \<not> put_user_fault env \<longrightarrow>
            fst (strom_ioctl_map_gpu_memory hf tgid env s) = 0)"
  using assms
  by (auto simp: strom_ioctl_map_gpu_memory_def Let_def nvidia_p2p_put_pages_def kfree_fresh
      split: option.splits)

text \<open>
  C8: a map request that fails after \<^verbatim>\<open>__nvidia_p2p_get_pages\<close> succeeded, which
  happens exactly for a device page size other than 4, 64 or 128 KiB (\<^verbatim>\<open>-EINVAL\<close>)
  and for a fault while copying the handle to the caller (\<^verbatim>\<open>-EFAULT\<close>), returns
  a negative error code and leaves no pin and no segment structure behind: the
  pinned tables and the store of segments are what they were before the call.
\<close>
theorem map_failure_releases_pin:
  assumes "copy_from_user env = Some karg" and "kmalloc env = Some p"
      and "mgmem_heap s p = None" and "get_pages_rc env = 0"
      and "strom_ioctl_map_gpu_memory hf tgid env s = (rc, ho, s')"
  shows "(pt_page_size (get_pages_table env) \<notin>
            {NVIDIA_P2P_PAGE_SIZE_4KB, NVIDIA_P2P_PAGE_SIZE_64KB, NVIDIA_P2P_PAGE_SIZE_128KB}
            \<longrightarrow> rc = - EINVAL) \<and>
         (pt_page_size (get_pages_table env) \<in>
            {NVIDIA_P2P_PAGE_SIZE_4KB, NVIDIA_P2P_PAGE_SIZE_64KB, NVIDIA_P2P_PAGE_SIZE_128KB}
            \<and> put_user_fault env \<longrightarrow> rc = - EFAULT) \<and>
         (rc \<noteq> 0 \<longleftrightarrow>
            pt_page_size (get_pages_table env) \<notin>
              {NVIDIA_P2P_PAGE_SIZE_4KB, NVIDIA_P2P_PAGE_SIZE_64KB, NVIDIA_P2P_PAGE_SIZE_128KB}
            \<or> put_user_fault env) \<and>
         (rc \<noteq> 0 \<longrightarrow>
            rc < 0 \<and> ho = None \<and> p2p_pinned s' = p2p_pinned s \<and>
            mgmem_heap s' = mgmem_heap s \<and> s' = s)"
proof (cases "page_size_in_bytes (pt_page_size (get_pages_table env)) = None")
  case True
  with map_after_pin [OF assms(1-4), of hf tgid] assms(5)
  show ?thesis by (auto simp: EINVAL_def page_size_unsupported)
next
  case False
  with map_after_pin [OF assms(1-4), of hf tgid] assms(5)
  show ?thesis by (cases "put_user_fault env") (auto simp: page_size_unsupported EFAULT_def)
qed

theorem map_failure_releases_pin_witness:
  "copy_from_user (sample_map 5 False) = Some \<lparr>vaddress = 0x10001, length_arg = 0x40000\<rparr> \<and>
   kmalloc (sample_map 5 False) = Some 0x1000 \<and>
   mgmem_heap nvme_strom_init 0x1000 = None \<and>
   get_pages_rc (sample_map 5 False) = 0 \<and>
   strom_ioctl_map_gpu_memory hash0 7 (sample_map 5 False) nvme_strom_init
     = (- EINVAL, None, nvme_strom_init) \<and>
   p2p_pinned nvme_strom_init = []"
proof -
  have r: "strom_ioctl_map_gpu_memory hash0 7 (sample_map 5 False) nvme_strom_init
     = (- EINVAL, None, nvme_strom_init)"
    by (simp add: strom_ioctl_map_gpu_memory_def Let_def sample_defs GPU_BOUND_OFFSET_val
        nvidia_p2p_put_pages_def)
  show ?thesis
    using map_failure_releases_pin [of "sample_map 5 False"
      "\<lparr>vaddress = 0x10001, length_arg = 0x40000\<rparr>" "0x1000" nvme_strom_init hash0 7
      "- EINVAL" None nvme_strom_init] r
    by (simp add: sample_map_def nvme_strom_init_def)
qed

subsection \<open>What each operation does to the state\<close>

lemma put_cases:
  assumes "strom_put_mapped_gpu_memory p s = Return s'"
  shows "\<exists>m. mgmem_heap s p = Some m \<and> 1 \<le> refcnt m \<and>
           strom_mgmem_slots s' = strom_mgmem_slots s \<and>
           (if refcnt m = 1 \<and> wait_task m \<noteq> None
            then mgmem_heap s' = (mgmem_heap s)(p \<mapsto> m\<lparr>refcnt := 0, wait_task := None\<rparr>) \<and>
                 wakeups s' = the (wait_task m) # wakeups s
            else mgmem_heap s' = (mgmem_heap s)(p \<mapsto> m\<lparr>refcnt := refcnt m - 1\<rparr>) \<and>
                 wakeups s' = wakeups s)"
  using assms
  by (auto simp: strom_put_mapped_gpu_memory_def strom_put_mapped_gpu_memory_locked_def Let_def
      split: option.splits if_splits)

lemma find_mgmem_Some:
  "find_mgmem hp h ps = Return (Some (p, m)) \<Longrightarrow> p \<in> set ps \<and> hp p = Some m \<and> handle m = h"
  by (induction ps) (auto split: option.splits if_splits)

lemma get_found:
  assumes "find_mgmem (mgmem_heap s) h (strom_mgmem_slots s (strom_mapped_gpu_memory_index hf h))
             = Return (Some (p, m))"
      and "strom_get_mapped_gpu_memory hf h s = Return (r, s')"
  shows "p = h \<and> r = Some h \<and> page_table m \<noteq> None \<and>
         s' = s\<lparr>mgmem_heap := (mgmem_heap s)(h \<mapsto> m\<lparr>refcnt := refcnt m + 1\<rparr>)\<rparr>"
  using assms
  by (auto simp: strom_get_mapped_gpu_memory_def Let_def split: if_splits)

lemma get_not_found:
  assumes "find_mgmem (mgmem_heap s) h (strom_mgmem_slots s (strom_mapped_gpu_memory_index hf h))
             = Return None"
  shows "strom_get_mapped_gpu_memory hf h s = Return (None, s)"
  using assms by (simp add: strom_get_mapped_gpu_memory_def)

lemma get_cases:
  assumes "strom_get_mapped_gpu_memory hf h s = Return (r, s')"
  shows "strom_mgmem_slots s' = strom_mgmem_slots s \<and> wakeups s' = wakeups s \<and>
         (case r of
            None \<Rightarrow> s' = s
          | Some p \<Rightarrow> p = h \<and> (\<exists>m. mgmem_heap s p = Some m \<and>
                mgmem_heap s' = (mgmem_heap s)(p \<mapsto> m\<lparr>refcnt := refcnt m + 1\<rparr>)))"
proof (cases "find_mgmem (mgmem_heap s) h (strom_mgmem_slots s (strom_mapped_gpu_memory_index hf h))")
  case BUG
  with assms show ?thesis by (simp add: strom_get_mapped_gpu_memory_def)
next
  case (Return x)
  show ?thesis
  proof (cases x)
    case None
    with Return assms get_not_found [of s h hf] show ?thesis by simp
  next
    case (Some pm)
    obtain p m where "pm = (p, m)" by (cases pm)
    with Some Return get_found [OF _ assms, of p m] find_mgmem_Some [of "mgmem_heap s" h _ p m]
    show ?thesis by auto
  qed
qed

lemma release_cases:
  assumes "strom_clenup_release p s = Return (r, s')"
  shows "r = Finished 0 \<and> mgmem_heap s' = (mgmem_heap s)(p := None) \<and>
         strom_mgmem_slots s' = strom_mgmem_slots s \<and> wakeups s' = wakeups s"
  using assms
  by (auto simp: strom_clenup_release_def split: option.splits)

lemma clenup_found:
  assumes "find_mgmem (mgmem_heap s) h (strom_mgmem_slots s (strom_mapped_gpu_memory_index hf h))
             = Return (Some (p, m))"
      and "strom_clenup_mapped_gpu_memory hf current h s = Return (r, s')"
  shows "p = h \<and> page_table m \<noteq> None \<and> wakeups s' = wakeups s \<and>
         strom_mgmem_slots s' = (strom_mgmem_slots s)
               (strom_mapped_gpu_memory_index hf h :=
                  remove1 h (strom_mgmem_slots s (strom_mapped_gpu_memory_index hf h))) \<and>
         (if refcnt m > 0
          then r = Sleeping h (wait_task m) \<and>
               mgmem_heap s' = (mgmem_heap s)(h \<mapsto> m\<lparr>wait_task := Some current\<rparr>)
          else r = Finished 0 \<and> mgmem_heap s' = (mgmem_heap s)(h := None))"
  using assms
  by (auto simp: strom_clenup_mapped_gpu_memory_def Let_def
      split: if_splits dest!: release_cases)

lemma clenup_not_found:
  assumes "find_mgmem (mgmem_heap s) h (strom_mgmem_slots s (strom_mapped_gpu_memory_index hf h))
             = Return None"
  shows "strom_clenup_mapped_gpu_memory hf current h s = Return (Finished (- ENOENT), s)"
  using assms by (simp add: strom_clenup_mapped_gpu_memory_def)

lemma clenup_cases:
  assumes "strom_clenup_mapped_gpu_memory hf current h s = Return (r, s')"
  shows "wakeups s' = wakeups s \<and>
         (\<forall>q. q \<noteq> h \<longrightarrow> mgmem_heap s' q = mgmem_heap s q) \<and>
         (\<forall>m m'. mgmem_heap s h = Some m \<and> mgmem_heap s' h = Some m' \<longrightarrow> refcnt m' = refcnt m)"
proof (cases "find_mgmem (mgmem_heap s) h (strom_mgmem_slots s (strom_mapped_gpu_memory_index hf h))")
  case BUG
  with assms show ?thesis by (simp add: strom_clenup_mapped_gpu_memory_def)
next
  case (Return x)
  show ?thesis
  proof (cases x)
    case None
    with Return assms clenup_not_found [of s h hf current] show ?thesis by auto
  next
    case (Some pm)
    obtain p m where "pm = (p, m)" by (cases pm)
    with Some Return clenup_found [OF _ assms, of p m] find_mgmem_Some [of "mgmem_heap s" h _ p m]
    show ?thesis by (auto split: if_splits)
  qed
qed

lemma resume_cases:
  assumes "strom_clenup_mapped_gpu_memory_resume p t s = Return (r, s')"
  shows "r = Finished 0 \<and> mgmem_heap s' = (mgmem_heap s)(p := None) \<and>
         strom_mgmem_slots s' = strom_mgmem_slots s \<and>
         (\<exists>m. mgmem_heap s p = Some m \<and> refcnt m \<noteq> 0)"
  using assms
  by (auto simp: strom_clenup_mapped_gpu_memory_resume_def Let_def
      split: option.splits if_splits dest!: release_cases)

lemma map_cases:
  assumes "strom_ioctl_map_gpu_memory hf tgid env s = (rc, ho, s')"
      and "enabled (MapGpuMemory tgid env) s W"
  shows "wakeups s' = wakeups s \<and>
         (case ho of
            None \<Rightarrow> rc \<noteq> 0 \<and> s' = s
          | Some p \<Rightarrow> rc = 0 \<and> mgmem_heap s p = None \<and>
              (\<exists>m. mgmem_heap s' = (mgmem_heap s)(p \<mapsto> m) \<and> handle m = p \<and> page_table m \<noteq> None
                    \<and> refcnt m = 0 \<and> wait_task m = None) \<and>
              strom_mgmem_slots s' = (strom_mgmem_slots s)
                (strom_mapped_gpu_memory_index hf p :=
                   p # strom_mgmem_slots s (strom_mapped_gpu_memory_index hf p)))"
proof (cases "kmalloc env")
  case None
  with assms show ?thesis
    by (auto simp: strom_ioctl_map_gpu_memory_def EFAULT_def ENOMEM_def split: option.splits)
next
  case (Some p)
  with assms(2) have "mgmem_heap s p = None" by simp
  with assms(1) Some show ?thesis
    by (cases ho) (auto simp: strom_ioctl_map_gpu_memory_def Let_def nvidia_p2p_put_pages_def
      fun_upd_idem EFAULT_def ENOMEM_def EINVAL_def
      split: option.splits if_splits)
qed

lemma step_map:
  "step hf (MapGpuMemory tgid env) s = Return (r, s') \<Longrightarrow>
   \<exists>rc ho. strom_ioctl_map_gpu_memory hf tgid env s = (rc, ho, s') \<and> r = Mapped rc ho"
  by (cases "strom_ioctl_map_gpu_memory hf tgid env s") simp

lemma step_unmap:
  "step hf (UnmapGpuMemory current h) s = Return (r, s') \<Longrightarrow>
   \<exists>r'. strom_clenup_mapped_gpu_memory hf current h s = Return (r', s') \<and> r = Unmapped r'"
  by (cases "strom_clenup_mapped_gpu_memory hf current h s") auto

lemma step_woken:
  "step hf (UnmapWokenUp p t) s = Return (r, s') \<Longrightarrow>
   \<exists>r'. strom_clenup_mapped_gpu_memory_resume p t s = Return (r', s') \<and> r = Unmapped r'"
  by (cases "strom_clenup_mapped_gpu_memory_resume p t s") auto

lemma step_acquire:
  "step hf (Acquire h) s = Return (r, s') \<Longrightarrow>
   \<exists>r'. strom_get_mapped_gpu_memory hf h s = Return (r', s') \<and> r = Acquired r'"
  by (cases "strom_get_mapped_gpu_memory hf h s") auto

lemma step_release:
  "step hf (Release p) s = Return (r, s') \<Longrightarrow>
   strom_put_mapped_gpu_memory p s = Return s' \<and> r = Released"
  by (cases "strom_put_mapped_gpu_memory p s") auto

text \<open>
  C7: among the operations on mapped segments only the release decrements a
  reference count.  In every reachable state, for a segment whose count is below
  \<open>INT_MAX\<close> (where the increment of the source does not overflow): whenever a step
  leaves the segment allocated with a smaller count, the step is the release of
  that segment, the count went down by one and is not negative.  If it reached
  zero, the waiter slot is empty afterwards and the registered teardown waiter, if
  any, is the one task that was woken; otherwise nobody is woken and the slot is
  untouched.
\<close>
theorem release_only_decrements:
  assumes "reachable hf s M W" and "refcnt m < INT_MAX"
      and "enabled opn s W" and "step hf opn s = Return (r, s')"
      and "mgmem_heap s p = Some m" and "mgmem_heap s' p = Some m'"
      and "refcnt m' < refcnt m"
  shows "opn = Release p \<and> refcnt m' = refcnt m - 1 \<and> 0 \<le> refcnt m' \<and>
         (refcnt m' = 0 \<longrightarrow> wait_task m' = None \<and>
            wakeups s' = (case wait_task m of None \<Rightarrow> wakeups s | Some t \<Rightarrow> t # wakeups s)) \<and>
         (refcnt m' \<noteq> 0 \<longrightarrow> wait_task m' = wait_task m \<and> wakeups s' = wakeups s)"
proof (cases opn)
  case (MapGpuMemory tgid env)
  with step_map assms(4) obtain rc ho where
    "strom_ioctl_map_gpu_memory hf tgid env s = (rc, ho, s')" by blast
  note c = map_cases [OF this, of W]
  have "refcnt m' = refcnt m"
  proof (cases ho)
    case None
    with c assms(3,5,6) MapGpuMemory show ?thesis by simp
  next
    case (Some q)
    with c assms(3) MapGpuMemory obtain x where
      "mgmem_heap s q = None" "mgmem_heap s' = (mgmem_heap s)(q \<mapsto> x)" by auto
    with assms(5,6) show ?thesis by (cases "p = q") simp_all
  qed
  with assms(7) show ?thesis by simp
next
  case (UnmapGpuMemory current h)
  with step_unmap assms(4) obtain r' where
    "strom_clenup_mapped_gpu_memory hf current h s = Return (r', s')" by blast
  from clenup_cases [OF this]
  have a: "\<forall>q. q \<noteq> h \<longrightarrow> mgmem_heap s' q = mgmem_heap s q"
    and b: "\<forall>m m'. mgmem_heap s h = Some m \<and> mgmem_heap s' h = Some m' \<longrightarrow> refcnt m' = refcnt m"
    by blast+
  have "refcnt m' = refcnt m"
  proof (cases "p = h")
    case True
    with b assms(5,6) show ?thesis by blast
  next
    case False
    with a assms(5,6) show ?thesis by simp
  qed
  with assms(7) show ?thesis by simp
next
  case (UnmapWokenUp q t)
  with step_woken assms(4) obtain r' where
    "strom_clenup_mapped_gpu_memory_resume q t s = Return (r', s')" by blast
  from resume_cases [OF this] have "mgmem_heap s' = (mgmem_heap s)(q := None)" by blast
  with assms(5,6) have "refcnt m' = refcnt m" by (cases "p = q") simp_all
  with assms(7) show ?thesis by simp
next
  case (Acquire h)
  with step_acquire assms(4) obtain r' where
    "strom_get_mapped_gpu_memory hf h s = Return (r', s')" by blast
  note c = get_cases [OF this]
  have "refcnt m \<le> refcnt m'"
  proof (cases r')
    case None
    with c assms(5,6) show ?thesis by simp
  next
    case (Some q)
    with c obtain x where
      "mgmem_heap s q = Some x" "mgmem_heap s' = (mgmem_heap s)(q \<mapsto> x\<lparr>refcnt := refcnt x + 1\<rparr>)"
      by auto
    with assms(5,6) show ?thesis by (cases "p = q") auto
  qed
  with assms(7) show ?thesis by simp
next
  case (Release q)
  with step_release assms(4) have "strom_put_mapped_gpu_memory q s = Return s'" by blast
  from put_cases [OF this] obtain x where
    x: "mgmem_heap s q = Some x" "1 \<le> refcnt x" and
    e: "if refcnt x = 1 \<and> wait_task x \<noteq> None
        then mgmem_heap s' = (mgmem_heap s)(q \<mapsto> x\<lparr>refcnt := 0, wait_task := None\<rparr>) \<and>
             wakeups s' = the (wait_task x) # wakeups s
        else mgmem_heap s' = (mgmem_heap s)(q \<mapsto> x\<lparr>refcnt := refcnt x - 1\<rparr>) \<and>
             wakeups s' = wakeups s"
    by blast
  have pq: "p = q"
  proof (rule ccontr)
    assume "p \<noteq> q"
    with e assms(5,6) have "m' = m" by (simp split: if_splits)
    with assms(7) show False by simp
  qed
  with x assms(5) have xm: "x = m" by simp
  show ?thesis
  proof (cases "refcnt m = 1 \<and> wait_task m \<noteq> None")
    case True
    with e xm pq assms(6) Release show ?thesis by auto
  next
    case False
    with e xm pq assms(6) x Release show ?thesis by (cases "wait_task m") auto
  qed
qed

subsection \<open>The registry invariant\<close>

lemma find_mgmem_wf:
  assumes "\<forall>p\<in>set ps. \<exists>m. hp p = Some m \<and> handle m = p"
  shows "find_mgmem hp h ps = Return (if h \<in> set ps then Some (h, the (hp h)) else None)"
  using assms by (induction ps) auto

lemma index_in_range: "strom_mapped_gpu_memory_index hf h < MAPPED_GPU_MEMORY_NSLOTS"
  by (simp add: strom_mapped_gpu_memory_index_def MAPPED_GPU_MEMORY_NSLOTS_def)

lemma registry_wf_find:
  assumes "registry_wf hf s"
  shows "find_mgmem (mgmem_heap s) h (strom_mgmem_slots s (strom_mapped_gpu_memory_index hf h))
           = Return (if h \<in> registry s then Some (h, the (mgmem_heap s h)) else None)"
proof -
  have "\<forall>p\<in>set (strom_mgmem_slots s (strom_mapped_gpu_memory_index hf h)).
          \<exists>m. mgmem_heap s p = Some m \<and> handle m = p"
    using assms unfolding registry_wf_def by fastforce
  moreover have "h \<in> registry s \<longleftrightarrow> h \<in> set (strom_mgmem_slots s (strom_mapped_gpu_memory_index hf h))"
    using assms index_in_range [of hf h] unfolding registry_wf_def registry_def by auto
  ultimately show ?thesis by (simp add: find_mgmem_wf)
qed

lemma registry_allocated:
  assumes "registry_wf hf s" and "p \<in> registry s"
  shows "\<exists>m. mgmem_heap s p = Some m"
proof -
  from assms(2) obtain i where "p \<in> set (strom_mgmem_slots s i)"
    unfolding registry_def by blast
  with assms(1) show ?thesis unfolding registry_wf_def by blast
qed

lemma registry_cons:
  assumes "strom_mgmem_slots s' = (strom_mgmem_slots s)(i := p # strom_mgmem_slots s i)"
      and "i < MAPPED_GPU_MEMORY_NSLOTS"
  shows "registry s' = insert p (registry s)"
  unfolding registry_def assms(1) using assms(2) by (auto split: if_splits)

lemma registry_remove1:
  assumes "strom_mgmem_slots s' = (strom_mgmem_slots s)(i := remove1 p (strom_mgmem_slots s i))"
      and "distinct (strom_mgmem_slots s i)"
      and "\<forall>j. j \<noteq> i \<longrightarrow> p \<notin> set (strom_mgmem_slots s j)"
  shows "registry s' = registry s - {p}"
  unfolding registry_def assms(1) using assms(2,3)
  by (auto split: if_splits)

lemma registry_same:
  "strom_mgmem_slots s' = strom_mgmem_slots s \<Longrightarrow> registry s' = registry s"
  by (simp add: registry_def)

lemma map_preserves:
  assumes wf: "registry_wf hf s" and sl: "sleepers_wf s (registry s) W"
      and en: "enabled (MapGpuMemory tgid env) s W"
      and st: "strom_ioctl_map_gpu_memory hf tgid env s = (rc, ho, s')"
  shows "registry_wf hf s' \<and>
         registry s' = mapped_after (MapGpuMemory tgid env) (Mapped rc ho) (registry s) \<and>
         sleepers_wf s' (registry s') W"
proof (cases ho)
  case None
  with map_cases [OF st en] wf sl show ?thesis by simp
next
  case (Some p)
  with map_cases [OF st en] obtain m where
    fresh: "mgmem_heap s p = None" and
    hp: "mgmem_heap s' = (mgmem_heap s)(p \<mapsto> m)" and
    m: "handle m = p" "page_table m \<noteq> None" "refcnt m = 0" and
    sl': "strom_mgmem_slots s' = (strom_mgmem_slots s)
                (strom_mapped_gpu_memory_index hf p :=
                   p # strom_mgmem_slots s (strom_mapped_gpu_memory_index hf p))"
    by auto
  have notin: "p \<notin> registry s"
    using registry_allocated [OF wf, of p] fresh by auto
  have r: "registry s' = insert p (registry s)"
    by (rule registry_cons [OF sl' index_in_range])
  have "p \<notin> set (strom_mgmem_slots s (strom_mapped_gpu_memory_index hf p))"
    using notin index_in_range [of hf p] unfolding registry_def by blast
  then have "registry_wf hf s'"
    using wf m unfolding registry_wf_def hp sl'
    by (auto split: if_splits)
  moreover have "sleepers_wf s' (registry s') W"
    unfolding sleepers_wf_def
  proof (intro allI impI)
    fix q u assume qu: "(q, u) \<in> W"
    with sl have q: "mgmem_heap s q \<noteq> None" "q \<notin> registry s" "\<forall>t'. (q, t') \<in> W \<longrightarrow> t' = u"
      unfolding sleepers_wf_def by blast+
    with fresh have "q \<noteq> p" by auto
    with q show "mgmem_heap s' q \<noteq> None \<and> q \<notin> registry s' \<and> (\<forall>t'. (q, t') \<in> W \<longrightarrow> t' = u)"
      unfolding r hp by simp
  qed
  ultimately show ?thesis using r Some by simp
qed

lemma unmap_preserves:
  assumes wf: "registry_wf hf s" and sl: "sleepers_wf s (registry s) W"
      and st: "strom_clenup_mapped_gpu_memory hf current h s = Return (r, s')"
  shows "registry_wf hf s' \<and> registry s' = registry s - {h} \<and>
         sleepers_wf s' (registry s') (sleepers_after (UnmapGpuMemory current h) (Unmapped r) W)"
proof (cases "h \<in> registry s")
  case False
  with registry_wf_find [OF wf, of h] clenup_not_found [of s h hf current] st
  have "s' = s" "r = Finished (- ENOENT)" by auto
  with wf sl False show ?thesis by simp
next
  case True
  let ?i = "strom_mapped_gpu_memory_index hf h"
  from registry_allocated [OF wf True] obtain m where hm: "mgmem_heap s h = Some m" ..
  with True registry_wf_find [OF wf, of h]
  have f: "find_mgmem (mgmem_heap s) h (strom_mgmem_slots s ?i) = Return (Some (h, m))" by simp
  note c = clenup_found [OF f st]
  have sl': "strom_mgmem_slots s' = (strom_mgmem_slots s)(?i := remove1 h (strom_mgmem_slots s ?i))"
    using c by simp
  have d: "distinct (strom_mgmem_slots s ?i)"
    and o: "\<forall>j. j \<noteq> ?i \<longrightarrow> h \<notin> set (strom_mgmem_slots s j)"
    using wf unfolding registry_wf_def by auto
  have r: "registry s' = registry s - {h}"
    by (rule registry_remove1 [OF sl' d o])
  have dom: "\<forall>q. q \<noteq> h \<longrightarrow> mgmem_heap s' q = mgmem_heap s q"
    using c by (auto split: if_splits)
  have hh: "\<forall>m'. mgmem_heap s' h = Some m' \<longrightarrow>
      handle m' = h \<and> page_table m' \<noteq> None \<and> 0 \<le> refcnt m'"
    using c wf hm unfolding registry_wf_def by (auto split: if_splits)
  have wf': "registry_wf hf s'"
    unfolding registry_wf_def
  proof (intro conjI allI impI)
    fix i show "distinct (strom_mgmem_slots s' i)"
      using wf unfolding registry_wf_def sl' by auto
  next
    fix i p assume "p \<in> set (strom_mgmem_slots s' i)"
    then have in_s: "p \<in> set (strom_mgmem_slots s i)" and ne: "p \<noteq> h"
      using d o unfolding sl' by (auto split: if_splits)
    with wf dom show "i = strom_mapped_gpu_memory_index hf p" "mgmem_heap s' p \<noteq> None"
      unfolding registry_wf_def by auto
  next
    fix p m' assume "mgmem_heap s' p = Some m'"
    with wf dom hh show "handle m' = p" "page_table m' \<noteq> None" "0 \<le> refcnt m'"
      unfolding registry_wf_def by (cases "p = h"; auto)+
  qed
  have noh: "\<forall>q u. (q, u) \<in> W \<longrightarrow> q \<noteq> h"
    using sl True unfolding sleepers_wf_def by auto
  have old: "\<forall>q u. (q, u) \<in> W \<longrightarrow>
      mgmem_heap s' q \<noteq> None \<and> q \<notin> registry s' \<and> (\<forall>t'. (q, t') \<in> W \<longrightarrow> t' = u)"
  proof (intro allI impI)
    fix q u assume qu: "(q, u) \<in> W"
    with noh have "q \<noteq> h" by blast
    moreover from qu sl have "mgmem_heap s q \<noteq> None" "q \<notin> registry s"
      "\<forall>t'. (q, t') \<in> W \<longrightarrow> t' = u"
      unfolding sleepers_wf_def by auto
    ultimately show "mgmem_heap s' q \<noteq> None \<and> q \<notin> registry s' \<and> (\<forall>t'. (q, t') \<in> W \<longrightarrow> t' = u)"
      using dom unfolding r by simp
  qed
  have "sleepers_wf s' (registry s') (sleepers_after (UnmapGpuMemory current h) (Unmapped r) W)"
  proof (cases "refcnt m > 0")
    case True
    with c have rr: "r = Sleeping h (wait_task m)" and al: "mgmem_heap s' h \<noteq> None" by auto
    show ?thesis
      unfolding sleepers_wf_def rr sleepers_after.simps
    proof (intro allI impI)
      fix q u assume "(q, u) \<in> insert (h, wait_task m) W"
      then consider "q = h" "u = wait_task m" | "(q, u) \<in> W" by auto
      then show "mgmem_heap s' q \<noteq> None \<and> q \<notin> registry s' \<and>
          (\<forall>t'. (q, t') \<in> insert (h, wait_task m) W \<longrightarrow> t' = u)"
      proof cases
        case 1
        with al noh show ?thesis unfolding r by auto
      next
        case 2
        with old noh show ?thesis by auto
      qed
    qed
  next
    case False
    with c have rr: "r = Finished 0" by auto
    show ?thesis unfolding sleepers_wf_def rr sleepers_after.simps using old by simp
  qed
  with wf' r show ?thesis by simp
qed

lemma resume_preserves:
  assumes wf: "registry_wf hf s" and sl: "sleepers_wf s (registry s) W"
      and en: "(p, t) \<in> W"
      and st: "strom_clenup_mapped_gpu_memory_resume p t s = Return (r, s')"
  shows "registry_wf hf s' \<and> registry s' = registry s \<and>
         sleepers_wf s' (registry s') (W - {(p, t)})"
proof -
  note c = resume_cases [OF st]
  have hp: "mgmem_heap s' = (mgmem_heap s)(p := None)"
    and sl': "strom_mgmem_slots s' = strom_mgmem_slots s" using c by simp_all
  have r: "registry s' = registry s" using sl' by (rule registry_same)
  have pn: "p \<notin> registry s" using sl en unfolding sleepers_wf_def by auto
  have "registry_wf hf s'"
    unfolding registry_wf_def
  proof (intro conjI allI impI)
    fix i show "distinct (strom_mgmem_slots s' i)"
      using wf unfolding registry_wf_def sl' by simp
  next
    fix i q assume "q \<in> set (strom_mgmem_slots s' i)"
    then have q: "q \<in> set (strom_mgmem_slots s i)" by (simp add: sl')
    from q wf have iq: "i = strom_mapped_gpu_memory_index hf q \<and> mgmem_heap s q \<noteq> None"
      unfolding registry_wf_def by auto
    with q index_in_range [of hf q] have "q \<in> registry s" unfolding registry_def by blast
    with pn have qp: "q \<noteq> p" by blast
    note iq
    with qp show "i = strom_mapped_gpu_memory_index hf q" "mgmem_heap s' q \<noteq> None"
      unfolding hp by simp_all
  next
    fix q m' assume "mgmem_heap s' q = Some m'"
    then have "mgmem_heap s q = Some m'" unfolding hp by (simp split: if_splits)
    with wf show "handle m' = q" "page_table m' \<noteq> None" "0 \<le> refcnt m'"
      unfolding registry_wf_def by auto
  qed
  moreover have "sleepers_wf s' (registry s') (W - {(p, t)})"
    unfolding sleepers_wf_def r
  proof (intro allI impI)
    fix q u assume "(q, u) \<in> W - {(p, t)}"
    then have qu: "(q, u) \<in> W" "(q, u) \<noteq> (p, t)" by simp_all
    from qu(1) sl have q: "mgmem_heap s q \<noteq> None" "q \<notin> registry s" "\<forall>t'. (q, t') \<in> W \<longrightarrow> t' = u"
      unfolding sleepers_wf_def by auto
    from q(3) en qu(2) have "q \<noteq> p" by auto
    with q show "mgmem_heap s' q \<noteq> None \<and> q \<notin> registry s \<and>
        (\<forall>t'. (q, t') \<in> W - {(p, t)} \<longrightarrow> t' = u)"
      unfolding hp by simp
  qed
  ultimately show ?thesis using r by simp
qed

lemma touch_preserves:
  assumes wf: "registry_wf hf s" and sl: "sleepers_wf s (registry s) W"
      and sl': "strom_mgmem_slots s' = strom_mgmem_slots s"
      and hp: "mgmem_heap s' = (mgmem_heap s)(p \<mapsto> m')"
      and m: "mgmem_heap s p = Some m" "handle m' = handle m" "page_table m' = page_table m"
        "0 \<le> refcnt m'"
  shows "registry_wf hf s' \<and> registry s' = registry s \<and> sleepers_wf s' (registry s') W"
proof -
  have r: "registry s' = registry s" using sl' by (rule registry_same)
  have "registry_wf hf s'"
    unfolding registry_wf_def
  proof (intro conjI allI impI)
    fix i show "distinct (strom_mgmem_slots s' i)"
      using wf unfolding registry_wf_def sl' by simp
  next
    fix i q assume "q \<in> set (strom_mgmem_slots s' i)"
    then have "q \<in> set (strom_mgmem_slots s i)" by (simp add: sl')
    with wf have "i = strom_mapped_gpu_memory_index hf q \<and> mgmem_heap s q \<noteq> None"
      unfolding registry_wf_def by auto
    then show "i = strom_mapped_gpu_memory_index hf q" "mgmem_heap s' q \<noteq> None"
      unfolding hp by simp_all
  next
    fix q x assume x: "mgmem_heap s' q = Some x"
    show "handle x = q" "page_table x \<noteq> None" "0 \<le> refcnt x"
    proof -
      have "handle x = q \<and> page_table x \<noteq> None \<and> 0 \<le> refcnt x"
      proof (cases "q = p")
        case True
        with x hp have "x = m'" by simp
        moreover from wf m(1) have "handle m = p \<and> page_table m \<noteq> None"
          unfolding registry_wf_def by auto
        ultimately show ?thesis using m True by simp
      next
        case False
        with x hp have "mgmem_heap s q = Some x" by simp
        with wf show ?thesis unfolding registry_wf_def by auto
      qed
      then show "handle x = q" "page_table x \<noteq> None" "0 \<le> refcnt x" by simp_all
    qed
  qed
  moreover have "sleepers_wf s' (registry s') W"
    unfolding sleepers_wf_def r
  proof (intro allI impI)
    fix q u assume "(q, u) \<in> W"
    with sl have "mgmem_heap s q \<noteq> None" "q \<notin> registry s" "\<forall>t'. (q, t') \<in> W \<longrightarrow> t' = u"
      unfolding sleepers_wf_def by auto
    then show "mgmem_heap s' q \<noteq> None \<and> q \<notin> registry s \<and> (\<forall>t'. (q, t') \<in> W \<longrightarrow> t' = u)"
      unfolding hp by simp
  qed
  ultimately show ?thesis using r by simp
qed

lemma get_preserves:
  assumes wf: "registry_wf hf s" and sl: "sleepers_wf s (registry s) W"
      and st: "strom_get_mapped_gpu_memory hf h s = Return (r, s')"
  shows "registry_wf hf s' \<and> registry s' = registry s \<and> sleepers_wf s' (registry s') W"
proof (cases r)
  case None
  with get_cases [OF st] wf sl show ?thesis by simp
next
  case (Some q)
  with get_cases [OF st] obtain x where
    h1: "strom_mgmem_slots s' = strom_mgmem_slots s" and h3: "mgmem_heap s q = Some x" and
    h2: "mgmem_heap s' = (mgmem_heap s)(q \<mapsto> x\<lparr>refcnt := refcnt x + 1\<rparr>)"
    by auto
  from wf h3 have "0 \<le> refcnt x" unfolding registry_wf_def by auto
  then show ?thesis by (intro touch_preserves [OF wf sl h1 h2 h3]) simp_all
qed

lemma put_preserves:
  assumes wf: "registry_wf hf s" and sl: "sleepers_wf s (registry s) W"
      and st: "strom_put_mapped_gpu_memory p s = Return s'"
  shows "registry_wf hf s' \<and> registry s' = registry s \<and> sleepers_wf s' (registry s') W"
proof -
  from put_cases [OF st] obtain x where
    h3: "mgmem_heap s p = Some x" and h1: "strom_mgmem_slots s' = strom_mgmem_slots s" and
    h4: "1 \<le> refcnt x" and
    e: "if refcnt x = 1 \<and> wait_task x \<noteq> None
        then mgmem_heap s' = (mgmem_heap s)(p \<mapsto> x\<lparr>refcnt := 0, wait_task := None\<rparr>) \<and>
             wakeups s' = the (wait_task x) # wakeups s
        else mgmem_heap s' = (mgmem_heap s)(p \<mapsto> x\<lparr>refcnt := refcnt x - 1\<rparr>) \<and>
             wakeups s' = wakeups s"
    by blast
  show ?thesis
  proof (cases "refcnt x = 1 \<and> wait_task x \<noteq> None")
    case True
    with e have h2: "mgmem_heap s' = (mgmem_heap s)(p \<mapsto> x\<lparr>refcnt := 0, wait_task := None\<rparr>)"
      by simp
    show ?thesis by (rule touch_preserves [OF wf sl h1 h2 h3]) simp_all
  next
    case False
    with e have h2: "mgmem_heap s' = (mgmem_heap s)(p \<mapsto> x\<lparr>refcnt := refcnt x - 1\<rparr>)"
      by simp
    from h4 show ?thesis by (intro touch_preserves [OF wf sl h1 h2 h3]) simp_all
  qed
qed

lemma init_inv:
  "registry_wf hf nvme_strom_init \<and> registry nvme_strom_init = {} \<and>
   sleepers_wf nvme_strom_init {} {}"
  by (simp add: registry_wf_def registry_def sleepers_wf_def nvme_strom_init_def)

lemma reachable_inv:
  assumes "reachable hf s M W"
  shows "registry_wf hf s \<and> registry s = M \<and> sleepers_wf s M W"
  using assms
proof (induction rule: reachable.induct)
  case reachable_init
  show ?case by (rule init_inv)
next
  case (reachable_step s M W opn r s')
  then have wf: "registry_wf hf s" and M: "registry s = M" and sl: "sleepers_wf s (registry s) W"
    by simp_all
  show ?case
  proof (cases opn)
    case (MapGpuMemory tgid env)
    with step_map reachable_step.hyps(3) obtain rc ho where
      st: "strom_ioctl_map_gpu_memory hf tgid env s = (rc, ho, s')" and r: "r = Mapped rc ho"
      by blast
    from reachable_step.hyps(2) MapGpuMemory have en: "enabled (MapGpuMemory tgid env) s W" by simp
    note pr = map_preserves [OF wf sl en st]
    have a: "registry_wf hf s'"
      and b: "registry s' = mapped_after (MapGpuMemory tgid env) (Mapped rc ho) (registry s)"
      and c: "sleepers_wf s' (registry s') W"
      using pr by blast+
    from c b have "sleepers_wf s' (mapped_after (MapGpuMemory tgid env) (Mapped rc ho) (registry s)) W"
      by simp
    with a b M MapGpuMemory r show ?thesis by (cases ho) simp_all
  next
    case (UnmapGpuMemory current h)
    with step_unmap reachable_step.hyps(3) obtain r' where
      st: "strom_clenup_mapped_gpu_memory hf current h s = Return (r', s')" and r: "r = Unmapped r'"
      by blast
    note pr = unmap_preserves [OF wf sl st]
    have a: "registry_wf hf s'" and b: "registry s' = registry s - {h}"
      and c: "sleepers_wf s' (registry s')
                (sleepers_after (UnmapGpuMemory current h) (Unmapped r') W)"
      using pr by blast+
    from c b have "sleepers_wf s' (registry s - {h})
                (sleepers_after (UnmapGpuMemory current h) (Unmapped r') W)" by simp
    with a b M UnmapGpuMemory r show ?thesis by simp
  next
    case (UnmapWokenUp p t)
    with step_woken reachable_step.hyps(3) obtain r' where
      st: "strom_clenup_mapped_gpu_memory_resume p t s = Return (r', s')" by blast
    from reachable_step.hyps(2) UnmapWokenUp have en: "(p, t) \<in> W" by simp
    note pr = resume_preserves [OF wf sl en st]
    have a: "registry_wf hf s'" and b: "registry s' = registry s"
      and c: "sleepers_wf s' (registry s') (W - {(p, t)})"
      using pr by blast+
    from c b have "sleepers_wf s' (registry s) (W - {(p, t)})" by simp
    with a b M UnmapWokenUp show ?thesis by simp
  next
    case (Acquire h)
    with step_acquire reachable_step.hyps(3) obtain r' where
      st: "strom_get_mapped_gpu_memory hf h s = Return (r', s')" by blast
    note pr = get_preserves [OF wf sl st]
    have a: "registry_wf hf s'" and b: "registry s' = registry s"
      and c: "sleepers_wf s' (registry s') W"
      using pr by blast+
    from c b have "sleepers_wf s' (registry s) W" by simp
    with a b M Acquire show ?thesis by simp
  next
    case (Release p)
    with step_release reachable_step.hyps(3) have
      st: "strom_put_mapped_gpu_memory p s = Return s'" by blast
    note pr = put_preserves [OF wf sl st]
    have a: "registry_wf hf s'" and b: "registry s' = registry s"
      and c: "sleepers_wf s' (registry s') W"
      using pr by blast+
    from c b have "sleepers_wf s' (registry s) W" by simp
    with a b M Release show ?thesis by simp
  qed
qed

lemma registry_wf_entry:
  assumes "registry_wf hf s" and "mgmem_heap s p = Some m"
  shows "handle m = p \<and> (\<exists>pt. page_table m = Some pt) \<and> 0 \<le> refcnt m"
  using assms unfolding registry_wf_def by blast

lemma reachable_refcnt_nonneg:
  assumes "reachable hf s M W" and "mgmem_heap s p = Some m"
  shows "0 \<le> refcnt m"
  using reachable_inv [OF assms(1)] registry_wf_entry assms(2) by blast

lemma lookup_wf:
  assumes wf: "registry_wf hf s"
  shows "\<exists>s1. strom_get_mapped_gpu_memory hf h s
           = Return (if h \<in> registry s then Some h else None, s1)"
proof (cases "h \<in> registry s")
  case False
  with registry_wf_find [OF wf, of h] get_not_found [of s h hf] show ?thesis by simp
next
  case True
  from registry_allocated [OF wf True] obtain m where m: "mgmem_heap s h = Some m" ..
  with wf have "page_table m \<noteq> None" unfolding registry_wf_def by auto
  moreover from True m registry_wf_find [OF wf, of h]
  have "find_mgmem (mgmem_heap s) h (strom_mgmem_slots s (strom_mapped_gpu_memory_index hf h))
          = Return (Some (h, m))" by simp
  ultimately show ?thesis using True
    by (auto simp: strom_get_mapped_gpu_memory_def)
qed

text \<open>
  C6: in every state reached by any interleaving of map, unmap or revocation,
  wake-up of a sleeping unmap, acquire and release, the registry holds exactly the
  handles that are currently mapped, and a lookup finds a handle if and only if it
  is mapped.  An unmap unlinks in its first critical section, before it sleeps: as
  soon as that section is over, whether the call returned or went to sleep, the
  handle is off the registry and a lookup of it finds nothing.
\<close>
theorem registry_is_mapped_handles:
  assumes "reachable hf s M W"
  shows "registry s = M \<and>
         (\<forall>h. \<exists>s1. strom_get_mapped_gpu_memory hf h s
                  = Return (if h \<in> M then Some h else None, s1)) \<and>
         (\<forall>current h r s'. strom_clenup_mapped_gpu_memory hf current h s = Return (r, s') \<longrightarrow>
            h \<notin> registry s' \<and> strom_get_mapped_gpu_memory hf h s' = Return (None, s'))"
proof -
  from reachable_inv [OF assms]
  have wf: "registry_wf hf s" and M: "registry s = M" and sl: "sleepers_wf s (registry s) W"
    by simp_all
  have "\<forall>h. \<exists>s1. strom_get_mapped_gpu_memory hf h s
                  = Return (if h \<in> M then Some h else None, s1)"
    using lookup_wf [OF wf] M by simp
  moreover have "\<forall>current h r s'. strom_clenup_mapped_gpu_memory hf current h s = Return (r, s') \<longrightarrow>
            h \<notin> registry s' \<and> strom_get_mapped_gpu_memory hf h s' = Return (None, s')"
  proof (intro allI impI)
    fix current h r s'
    assume st: "strom_clenup_mapped_gpu_memory hf current h s = Return (r, s')"
    from unmap_preserves [OF wf sl st]
    have wf': "registry_wf hf s'" and r': "registry s' = registry s - {h}" by simp_all
    then have n: "h \<notin> registry s'" by simp
    with registry_wf_find [OF wf', of h] get_not_found [of s' h hf]
    show "h \<notin> registry s' \<and> strom_get_mapped_gpu_memory hf h s' = Return (None, s')" by simp
  qed
  ultimately show ?thesis using M by simp
qed

subsection \<open>A drain scenario on the sample segment\<close>

lemmas op_defs = strom_get_mapped_gpu_memory_def strom_put_mapped_gpu_memory_def
  strom_put_mapped_gpu_memory_locked_def strom_clenup_mapped_gpu_memory_def
  strom_clenup_mapped_gpu_memory_resume_def strom_clenup_release_def Let_def

lemma sample_step_map:
  "step hash0 (MapGpuMemory 7 (sample_map NVIDIA_P2P_PAGE_SIZE_64KB False)) nvme_strom_init
     = Return (Mapped 0 (Some 0x1000), sample_state 0 None True)"
  by (simp add: sample_map_result)

lemma sample_step_acquire:
  "step hash0 (Acquire 0x1000) (sample_state 0 None True)
     = Return (Acquired (Some 0x1000), sample_state 1 None True)"
  by (simp add: op_defs sample_defs fun_eq_iff)

lemma sample_step_unmap_busy:
  "step hash0 (UnmapGpuMemory 4 0x1000) (sample_state 1 None True)
     = Return (Unmapped (Sleeping 0x1000 None), sample_state 1 (Some 4) False)"
  by (simp add: op_defs sample_defs fun_eq_iff)

lemma sample_step_release:
  "step hash0 (Release 0x1000) (sample_state 1 (Some 4) False)
     = Return (Released, (sample_state 0 None False)\<lparr>wakeups := [4]\<rparr>)"
  by (simp add: op_defs sample_defs fun_eq_iff)

text \<open>
  When the holder has released and so woken the sleeping unmap, the unmap runs into
  \<^verbatim>\<open>BUG_ON(mgmem->refcnt == 0)\<close>: a drained segment is never released by this path.
\<close>
lemma sample_step_woken_drained:
  "step hash0 (UnmapWokenUp 0x1000 None) ((sample_state 0 None False)\<lparr>wakeups := [4]\<rparr>) = BUG"
  by (simp add: op_defs sample_defs)

lemma sample_step_unmap_idle:
  "step hash0 (UnmapGpuMemory 4 0x1000) (sample_state 0 None True)
     = Return (Unmapped (Finished 0), nvme_strom_init)"
  by (simp add: op_defs sample_defs fun_eq_iff)

lemma sample_reachable_mapped: "reachable hash0 (sample_state 0 None True) {0x1000} {}"
  using reachable_step [OF reachable_init _ sample_step_map]
  by (simp add: sample_map_def nvme_strom_init_def)

lemma sample_reachable_acquired: "reachable hash0 (sample_state 1 None True) {0x1000} {}"
  using reachable_step [OF sample_reachable_mapped _ sample_step_acquire] by simp

lemma sample_reachable_sleeping:
  "reachable hash0 (sample_state 1 (Some 4) False) {} {(0x1000, None)}"
  using reachable_step [OF sample_reachable_acquired _ sample_step_unmap_busy] by simp

theorem release_only_decrements_witness:
  "reachable hash0 (sample_state 1 (Some 4) False) {} {(0x1000, None)} \<and>
   refcnt (sample_mgmem 1 (Some 4)) < INT_MAX \<and>
   enabled (Release 0x1000) (sample_state 1 (Some 4) False) {(0x1000, None)} \<and>
   step hash0 (Release 0x1000) (sample_state 1 (Some 4) False)
     = Return (Released, (sample_state 0 None False)\<lparr>wakeups := [4]\<rparr>) \<and>
   mgmem_heap (sample_state 1 (Some 4) False) 0x1000 = Some (sample_mgmem 1 (Some 4)) \<and>
   mgmem_heap ((sample_state 0 None False)\<lparr>wakeups := [4]\<rparr>) 0x1000 = Some (sample_mgmem 0 None) \<and>
   refcnt (sample_mgmem 0 None) < refcnt (sample_mgmem 1 (Some 4)) \<and>
   wait_task (sample_mgmem 0 None) = None \<and>
   wakeups ((sample_state 0 None False)\<lparr>wakeups := [4]\<rparr>) = 4 # wakeups (sample_state 1 (Some 4) False)"
proof -
  have e: "enabled (Release 0x1000) (sample_state 1 (Some 4) False) {(0x1000, None)}" by simp
  have h: "mgmem_heap (sample_state 1 (Some 4) False) 0x1000 = Some (sample_mgmem 1 (Some 4))"
    by (simp add: sample_state_def nvme_strom_init_def)
  have h': "mgmem_heap ((sample_state 0 None False)\<lparr>wakeups := [4]\<rparr>) 0x1000 = Some (sample_mgmem 0 None)"
    by (simp add: sample_state_def nvme_strom_init_def)
  have l: "refcnt (sample_mgmem 0 None) < refcnt (sample_mgmem 1 (Some 4))"
    by (simp add: sample_mgmem_def)
  have b: "refcnt (sample_mgmem 1 (Some 4)) < INT_MAX"
    by (simp add: sample_mgmem_def INT_MAX_def)
  from release_only_decrements [OF sample_reachable_sleeping b e sample_step_release h h' l]
    e h h' l b sample_step_release sample_reachable_sleeping
  show ?thesis by (simp add: sample_mgmem_def)
qed

theorem registry_is_mapped_handles_witness:
  "reachable hash0 (sample_state 0 None True) {0x1000} {} \<and>
   registry (sample_state 0 None True) = {0x1000} \<and>
   strom_get_mapped_gpu_memory hash0 0x1000 (sample_state 0 None True)
     = Return (Some 0x1000, sample_state 1 None True) \<and>
   strom_clenup_mapped_gpu_memory hash0 4 0x1000 (sample_state 0 None True)
     = Return (Finished 0, nvme_strom_init) \<and>
   strom_get_mapped_gpu_memory hash0 0x1000 nvme_strom_init = Return (None, nvme_strom_init)"
proof -
  note t = registry_is_mapped_handles [OF sample_reachable_mapped]
  have g: "strom_get_mapped_gpu_memory hash0 0x1000 (sample_state 0 None True)
     = Return (Some 0x1000, sample_state 1 None True)"
    using step_acquire [OF sample_step_acquire] by simp
  have u: "strom_clenup_mapped_gpu_memory hash0 4 0x1000 (sample_state 0 None True)
     = Return (Finished 0, nvme_strom_init)"
    using step_unmap [OF sample_step_unmap_idle] by simp
  from t u have "strom_get_mapped_gpu_memory hash0 0x1000 nvme_strom_init = Return (None, nvme_strom_init)"
    by blast
  with t g u sample_reachable_mapped show ?thesis by simp
qed

subsection \<open>Query of a mapped segment\<close>

lemma info_put_pages_ok:
  assumes "\<forall>i. \<not> fault i"
  shows "info_put_pages fault nrooms i ps rc out = (rc, out @ take (nrooms - i) ps)"
  using assms
proof (induction ps arbitrary: i out)
  case Nil
  then show ?case by simp
next
  case (Cons a ps)
  show ?case
  proof (cases "i \<ge> nrooms")
    case True
    then show ?thesis by simp
  next
    case False
    then have "nrooms - i = Suc (nrooms - (i + 1))" by simp
    with False Cons show ?thesis by simp
  qed
qed

lemma put_returns:
  assumes "mgmem_heap s p = Some m" and "1 \<le> refcnt m"
  shows "\<exists>s'. strom_put_mapped_gpu_memory p s = Return s'"
  using assms
  by (cases "wait_task m"; cases "refcnt m = 1")
    (simp_all add: strom_put_mapped_gpu_memory_def strom_put_mapped_gpu_memory_locked_def Let_def)

text \<open>
  C9: in every reachable state, a query of a mapped handle by a caller with room for
  \<open>n\<close> entries, whose buffer can be written, returns 0 and stores the version, the
  page size in bytes, the full number of entries, and the physical addresses of the
  first \<open>min n entries\<close> pages; a buffer smaller than the table truncates the list
  and is no error.
\<close>
theorem info_truncates:
  assumes "reachable hf s M W" and "h \<in> M"
      and "info_copy_from_user env = Some (h, n)"
      and "\<not> copy_to_user_fault env" and "\<forall>i. \<not> put_user_fault_at env i"
  shows "\<exists>m pt s'. mgmem_heap s h = Some m \<and> page_table m = Some pt \<and>
           strom_ioctl_info_gpu_memory hf env s =
             Return (0, \<lparr>out_head = Some (pt_version pt, page_size m, pt_entries pt),
                         out_physical_address = take (min n (pt_entries pt)) (pt_pages pt)\<rparr>, s')"
proof -
  from reachable_inv [OF assms(1)]
  have wf: "registry_wf hf s" and M: "registry s = M" by simp_all
  from assms(2) M have hr: "h \<in> registry s" by simp
  from registry_allocated [OF wf hr] obtain m where m: "mgmem_heap s h = Some m" ..
  from registry_wf_entry [OF wf m] obtain pt where
    pt: "page_table m = Some pt" and nn: "0 \<le> refcnt m" by blast
  from hr m registry_wf_find [OF wf, of h]
  have f: "find_mgmem (mgmem_heap s) h (strom_mgmem_slots s (strom_mapped_gpu_memory_index hf h))
          = Return (Some (h, m))" by simp
  let ?s1 = "s\<lparr>mgmem_heap := (mgmem_heap s)(h \<mapsto> m\<lparr>refcnt := refcnt m + 1\<rparr>)\<rparr>"
  have g: "strom_get_mapped_gpu_memory hf h s = Return (Some h, ?s1)"
    using f pt by (simp add: strom_get_mapped_gpu_memory_def)
  obtain s2 where p: "strom_put_mapped_gpu_memory h ?s1 = Return s2"
    using nn put_returns [of ?s1 h "m\<lparr>refcnt := refcnt m + 1\<rparr>"] by auto
  have l: "info_put_pages (put_user_fault_at env) n 0 (pt_pages pt) 0 []
             = (0, take (min n (pt_entries pt)) (pt_pages pt))"
    using info_put_pages_ok [OF assms(5), of n 0 "pt_pages pt" 0 "[]"]
    by (simp add: pt_entries_def min_def)
  have "strom_ioctl_info_gpu_memory hf env s =
             Return (0, \<lparr>out_head = Some (pt_version pt, page_size m, pt_entries pt),
                         out_physical_address = take (min n (pt_entries pt)) (pt_pages pt)\<rparr>, s2)"
    using assms(3,4) g p l pt
    by (simp add: strom_ioctl_info_gpu_memory_def)
  with m pt show ?thesis by blast
qed

lemma sample_info_result:
  "strom_ioctl_info_gpu_memory hash0 (sample_info 2) (sample_state 0 None True)
     = Return (0, \<lparr>out_head = Some (1, 65536, 5), out_physical_address = [0xA0000, 0xB0000]\<rparr>,
               sample_state 0 None True)"
  by (simp add: strom_ioctl_info_gpu_memory_def op_defs sample_defs sample_info_def
      pt_entries_def fun_eq_iff)

theorem info_truncates_witness:
  "reachable hash0 (sample_state 0 None True) {0x1000} {} \<and> (0x1000 :: ulong) \<in> {0x1000} \<and>
   info_copy_from_user (sample_info 2) = Some (0x1000, 2) \<and>
   \<not> copy_to_user_fault (sample_info 2) \<and> (\<forall>i. \<not> put_user_fault_at (sample_info 2) i) \<and>
   strom_ioctl_info_gpu_memory hash0 (sample_info 2) (sample_state 0 None True)
     = Return (0, \<lparr>out_head = Some (1, 65536, 5), out_physical_address = [0xA0000, 0xB0000]\<rparr>,
               sample_state 0 None True)"
proof -
  have a: "info_copy_from_user (sample_info 2) = Some (0x1000, 2)"
    and b: "\<not> copy_to_user_fault (sample_info 2)"
    and c: "\<forall>i. \<not> put_user_fault_at (sample_info 2) i"
    by (simp_all add: sample_info_def)
  from info_truncates [OF sample_reachable_mapped _ a b c] a b c sample_reachable_mapped
    sample_info_result
  show ?thesis by simp
qed

subsection \<open>Completion and wait of DMA tasks\<close>

lemma find_dtask_none:
  assumes "\<forall>p \<in> set ps. \<exists>d. hp p = Some d \<and> dma_task_id d \<noteq> tid"
  shows "find_dtask hp tid ps = Return None"
  using assms by (induction ps) auto

lemma sample_cleanup_result:
  "strom_cleanup_dma_task hash0 0x2000 sample_dma_state = Return sample_dma_done"
  by (simp add: strom_cleanup_dma_task_def op_defs sample_defs sample_dma_done_def fun_eq_iff)

lemma sample_wait_result:
  "strom_ioctl_memcpy_ssd2gpu_wait hash0 4 (Some 0x2000) sample_dma_done
     = Return (Returned (- ENOENT), sample_dma_done)"
  by (simp add: strom_ioctl_memcpy_ssd2gpu_wait_def strom_memcpy_ssd2gpu_wait_def
      sample_dma_done_def sample_state_def nvme_strom_init_def)

text \<open>
  C2, as the claim states it, fails: once the sample task has completed and
  \<^verbatim>\<open>strom_cleanup_dma_task\<close> has reaped it, the wait ioctl on its id returns
  \<^verbatim>\<open>-ENOENT\<close>, which is \<open>-2\<close>, to the caller.
\<close>
theorem wait_after_reap_is_an_error:
  "strom_cleanup_dma_task hash0 0x2000 sample_dma_state = Return sample_dma_done \<and>
   strom_ioctl_memcpy_ssd2gpu_wait hash0 4 (Some 0x2000) sample_dma_done
     = Return (Returned (- 2), sample_dma_done)"
  using sample_cleanup_result sample_wait_result by (simp add: ENOENT_def)

text \<open>
  C2, amended: for every task id that is not registered, \<^verbatim>\<open>strom_memcpy_ssd2gpu_wait\<close>
  returns at once with the negative code \<^verbatim>\<open>-ENOENT\<close> and changes nothing, and the
  wait ioctl hands that code to its caller as it is.
\<close>
theorem wait_not_found:
  assumes "dma_slots_allocated s" and "\<not> dma_task_registered hf s tid"
  shows "strom_memcpy_ssd2gpu_wait hf current tid s = Return (Returned (- ENOENT), s) \<and>
         strom_ioctl_memcpy_ssd2gpu_wait hf current (Some tid) s = Return (Returned (- ENOENT), s) \<and>
         - ENOENT < 0"
proof -
  have "\<forall>p \<in> set (strom_dma_task_slots s (strom_dma_task_index hf tid)).
          \<exists>d. dtask_heap s p = Some d \<and> dma_task_id d \<noteq> tid"
    using assms unfolding dma_slots_allocated_def dma_task_registered_def by fastforce
  then have "find_dtask (dtask_heap s) tid (strom_dma_task_slots s (strom_dma_task_index hf tid))
               = Return None"
    by (rule find_dtask_none)
  then show ?thesis
    by (simp add: strom_ioctl_memcpy_ssd2gpu_wait_def strom_memcpy_ssd2gpu_wait_def ENOENT_def)
qed

theorem wait_not_found_witness:
  "dma_slots_allocated sample_dma_state \<and> \<not> dma_task_registered hash0 sample_dma_state 0x3000 \<and>
   strom_ioctl_memcpy_ssd2gpu_wait hash0 4 (Some 0x3000) sample_dma_state
     = Return (Returned (- ENOENT), sample_dma_state)"
proof -
  have a: "dma_slots_allocated sample_dma_state"
    by (simp add: dma_slots_allocated_def sample_dma_state_def sample_state_def nvme_strom_init_def)
  have b: "\<not> dma_task_registered hash0 sample_dma_state 0x3000"
    by (simp add: dma_task_registered_def sample_dma_state_def sample_state_def
        nvme_strom_init_def sample_dtask_def strom_dma_task_index_def hash0_def)
  from wait_not_found [OF a b, of 4] a b show ?thesis by simp
qed

lemma cleanup_keeps_pinned_pages:
  assumes "strom_cleanup_dma_task hf tid s = Return s'"
  shows "pinned_pages s' = pinned_pages s"
proof -
  have put: "\<And>p a b. strom_put_mapped_gpu_memory p a = Return b \<Longrightarrow> pinned_pages b = pinned_pages a"
    by (auto simp: strom_put_mapped_gpu_memory_def strom_put_mapped_gpu_memory_locked_def Let_def
        split: option.splits if_splits)
  show ?thesis
    using assms
    by (auto simp: strom_cleanup_dma_task_def Let_def
        split: kernel.splits option.splits prod.splits dest!: put)
qed

text \<open>
  C4: the code against the claim that the cleanup of a task releases its pinned
  source pages.  The sample task holds the pages \<open>101\<close> and \<open>102\<close> on its
  \<open>dma_pages_list\<close>.  Its cleanup unlinks it, drops the reference to the segment,
  calls \<^verbatim>\<open>fput\<close> once and wakes the waiter once, then frees the task; the two
  pages are still pinned afterwards, and with the task gone nothing refers to them.
\<close>
theorem cleanup_leaves_pages_pinned:
  "strom_cleanup_dma_task hash0 0x2000 sample_dma_state = Return sample_dma_done \<and>
   map_option dma_pages_list (dtask_heap sample_dma_state 0x2000) = Some [[101, 102]] \<and>
   pinned_pages sample_dma_state = [101, 102] \<and>
   strom_dma_task_slots sample_dma_done 0 = [] \<and>
   dtask_heap sample_dma_done 0x2000 = None \<and>
   map_option refcnt (mgmem_heap sample_dma_state 0x1000) = Some 1 \<and>
   map_option refcnt (mgmem_heap sample_dma_done 0x1000) = Some 0 \<and>
   fputs sample_dma_done = [3] \<and> wakeups sample_dma_done = [9] \<and>
   pinned_pages sample_dma_done = [101, 102]"
  using sample_cleanup_result
  by (simp add: sample_dma_done_def sample_dma_state_def sample_dtask_def sample_state_def
      sample_mgmem_def nvme_strom_init_def)


subsection \<open>Release of a segment\<close>
















subsection \<open>The registry while a map is in progress\<close>

lemma find_mgmem_cong:
  assumes "\<forall>q \<in> set ps. hp q = hp' q"
  shows "find_mgmem hp h ps = find_mgmem hp' h ps"
  using assms by (induction ps) (auto split: option.splits)

lemma lookup_frame:
  assumes wf: "registry_wf hf s" and fresh: "mgmem_heap s p = None"
      and sl: "strom_mgmem_slots x = strom_mgmem_slots s"
      and hp: "\<forall>q. q \<noteq> p \<longrightarrow> mgmem_heap x q = mgmem_heap s q"
  shows "lookup_finds hf x h = lookup_finds hf s h"
proof -
  let ?ps = "strom_mgmem_slots s (strom_mapped_gpu_memory_index hf h)"
  have "\<forall>q \<in> set ?ps. mgmem_heap x q = mgmem_heap s q"
  proof
    fix q assume "q \<in> set ?ps"
    with wf have "mgmem_heap s q \<noteq> None" unfolding registry_wf_def by blast
    with fresh have "q \<noteq> p" by auto
    with hp show "mgmem_heap x q = mgmem_heap s q" by simp
  qed
  then have "find_mgmem (mgmem_heap x) h ?ps = find_mgmem (mgmem_heap s) h ?ps"
    by (rule find_mgmem_cong)
  then show ?thesis
    by (simp add: lookup_finds_def strom_get_mapped_gpu_memory_def sl
        split: kernel.splits option.splits prod.splits)
qed

lemma map_steps_agree:
  assumes "strom_ioctl_map_gpu_memory_steps hf tgid env s = (tr, rc, ho)"
  shows "strom_ioctl_map_gpu_memory hf tgid env s = (rc, ho, last (s # tr))"
  using assms
  by (auto simp: strom_ioctl_map_gpu_memory_steps_def strom_ioctl_map_gpu_memory_def Let_def
      split: option.splits if_splits)

lemma map_steps_frame:
  assumes "strom_ioctl_map_gpu_memory_steps hf tgid env s = (tr, rc, ho)"
      and "kmalloc env = Some p" and "x \<in> set (butlast (s # tr))"
  shows "strom_mgmem_slots x = strom_mgmem_slots s \<and>
         (\<forall>q. q \<noteq> p \<longrightarrow> mgmem_heap x q = mgmem_heap s q)"
  using assms
  by (auto simp: strom_ioctl_map_gpu_memory_steps_def Let_def
      split: option.splits if_splits)

lemma map_steps_empty:
  assumes "strom_ioctl_map_gpu_memory_steps hf tgid env s = (tr, rc, ho)"
      and "kmalloc env = None"
  shows "tr = []"
  using assms
  by (auto simp: strom_ioctl_map_gpu_memory_steps_def split: option.splits)

lemma map_steps_success:
  assumes "strom_ioctl_map_gpu_memory_steps hf tgid env s = (tr, 0, ho)"
  shows "get_pages_rc env = 0 \<and>
         page_size_in_bytes (pt_page_size (get_pages_table env)) \<noteq> None \<and>
         \<not> put_user_fault env \<and>
         (\<exists>p. kmalloc env = Some p \<and> ho = Some p \<and> length tr = 4 \<and>
            last (s # tr) = (last (butlast (s # tr)))
              \<lparr>strom_mgmem_slots := (strom_mgmem_slots s)
                 (strom_mapped_gpu_memory_index hf p :=
                    p # strom_mgmem_slots s (strom_mapped_gpu_memory_index hf p))\<rparr>)"
  using assms
  by (auto simp: strom_ioctl_map_gpu_memory_steps_def Let_def EFAULT_def ENOMEM_def EINVAL_def
      split: option.splits if_splits)

lemma failed_map_restores_state:
  assumes "strom_ioctl_map_gpu_memory hf tgid env s = (rc, ho, s')" and "rc \<noteq> 0"
      and "enabled (MapGpuMemory tgid env) s W"
  shows "ho = None \<and> s' = s"
  using assms
  by (auto simp: strom_ioctl_map_gpu_memory_def Let_def nvidia_p2p_put_pages_def
      kfree_fresh split: option.splits if_splits)

text \<open>
  C10: a map call links the new entry only in its final step.  In every reachable
  state, in each state the call goes through before its last one the chains and
  the registry are those it started with, and a lookup of any handle finds what it
  found before the call.  If the call returns an error (failed pin, unsupported
  page size, or fault while copying the handle out), this holds for every state
  it goes through, the last one included, and no handle is stored for the caller:
  neither a lookup nor the enumeration of the chains ever sees the failed map.
  If it returns 0, then pinning, classification and copy-out have succeeded and
  its last step is the one that links the entry.
\<close>
theorem failed_map_never_linked:
  assumes "reachable hf s M W" and "enabled (MapGpuMemory tgid env) s W"
      and "strom_ioctl_map_gpu_memory_steps hf tgid env s = (tr, rc, ho)"
  shows "strom_ioctl_map_gpu_memory hf tgid env s = (rc, ho, last (s # tr)) \<and>
         (\<forall>x \<in> set (butlast (s # tr)).
            strom_mgmem_slots x = strom_mgmem_slots s \<and> registry x = registry s \<and>
            (\<forall>h. lookup_finds hf x h = lookup_finds hf s h)) \<and>
         (rc \<noteq> 0 \<longrightarrow> ho = None \<and>
            (\<forall>x \<in> set (s # tr).
               strom_mgmem_slots x = strom_mgmem_slots s \<and> registry x = registry s \<and>
               (\<forall>h. lookup_finds hf x h = lookup_finds hf s h))) \<and>
         (rc = 0 \<longrightarrow>
            get_pages_rc env = 0 \<and>
            page_size_in_bytes (pt_page_size (get_pages_table env)) \<noteq> None \<and>
            \<not> put_user_fault env \<and>
            (\<exists>p. ho = Some p \<and>
               last (s # tr) = (last (butlast (s # tr)))
                 \<lparr>strom_mgmem_slots := (strom_mgmem_slots s)
                    (strom_mapped_gpu_memory_index hf p :=
                       p # strom_mgmem_slots s (strom_mapped_gpu_memory_index hf p))\<rparr>))"
proof -
  from reachable_inv [OF assms(1)] have wf: "registry_wf hf s" by simp
  note ag = map_steps_agree [OF assms(3)]
  have mid: "\<forall>x \<in> set (butlast (s # tr)).
            strom_mgmem_slots x = strom_mgmem_slots s \<and> registry x = registry s \<and>
            (\<forall>h. lookup_finds hf x h = lookup_finds hf s h)"
  proof (cases "kmalloc env")
    case None
    with map_steps_empty [OF assms(3)] show ?thesis by simp
  next
    case (Some p)
    with assms(2) have fresh: "mgmem_heap s p = None" by simp
    show ?thesis
    proof
      fix x assume "x \<in> set (butlast (s # tr))"
      from map_steps_frame [OF assms(3) Some this]
      have sl: "strom_mgmem_slots x = strom_mgmem_slots s"
        and hp: "\<forall>q. q \<noteq> p \<longrightarrow> mgmem_heap x q = mgmem_heap s q" by simp_all
      from lookup_frame [OF wf fresh sl hp] registry_same [OF sl] sl
      show "strom_mgmem_slots x = strom_mgmem_slots s \<and> registry x = registry s \<and>
            (\<forall>h. lookup_finds hf x h = lookup_finds hf s h)" by simp
    qed
  qed
  have fail: "rc \<noteq> 0 \<longrightarrow> ho = None \<and>
            (\<forall>x \<in> set (s # tr).
               strom_mgmem_slots x = strom_mgmem_slots s \<and> registry x = registry s \<and>
               (\<forall>h. lookup_finds hf x h = lookup_finds hf s h))"
  proof
    assume "rc \<noteq> 0"
    from failed_map_restores_state [OF ag this assms(2)]
    have ho: "ho = None" and l: "last (s # tr) = s" by simp_all
    have "set (s # tr) = set (butlast (s # tr)) \<union> {last (s # tr)}"
      by (metis Un_insert_right append_butlast_last_id list.discI list.set(2) set_append
          sup_bot.right_neutral list.set(1))
    with mid l ho show "ho = None \<and>
            (\<forall>x \<in> set (s # tr).
               strom_mgmem_slots x = strom_mgmem_slots s \<and> registry x = registry s \<and>
               (\<forall>h. lookup_finds hf x h = lookup_finds hf s h))" by auto
  qed
  have ok: "rc = 0 \<longrightarrow>
            get_pages_rc env = 0 \<and>
            page_size_in_bytes (pt_page_size (get_pages_table env)) \<noteq> None \<and>
            \<not> put_user_fault env \<and>
            (\<exists>p. ho = Some p \<and>
               last (s # tr) = (last (butlast (s # tr)))
                 \<lparr>strom_mgmem_slots := (strom_mgmem_slots s)
                    (strom_mapped_gpu_memory_index hf p :=
                       p # strom_mgmem_slots s (strom_mapped_gpu_memory_index hf p))\<rparr>)"
    using map_steps_success [of hf tgid env s tr ho] assms(3) by blast
  from ag mid fail ok show ?thesis by blast
qed

lemma sample_map_steps_fault:
  "snd (strom_ioctl_map_gpu_memory_steps hash0 7
          (sample_map NVIDIA_P2P_PAGE_SIZE_64KB True) nvme_strom_init) = (- EFAULT, None) \<and>
   length (fst (strom_ioctl_map_gpu_memory_steps hash0 7
          (sample_map NVIDIA_P2P_PAGE_SIZE_64KB True) nvme_strom_init)) = 5"
  by (simp add: strom_ioctl_map_gpu_memory_steps_def Let_def sample_defs)

theorem failed_map_never_linked_witness:
  "reachable hash0 nvme_strom_init {} {} \<and>
   enabled (MapGpuMemory 7 (sample_map NVIDIA_P2P_PAGE_SIZE_64KB True)) nvme_strom_init {} \<and>
   snd (strom_ioctl_map_gpu_memory_steps hash0 7
          (sample_map NVIDIA_P2P_PAGE_SIZE_64KB True) nvme_strom_init) = (- EFAULT, None) \<and>
   map registry (nvme_strom_init # fst (strom_ioctl_map_gpu_memory_steps hash0 7
          (sample_map NVIDIA_P2P_PAGE_SIZE_64KB True) nvme_strom_init))
     = replicate 6 {} \<and>
   map (lookup_finds hash0 nvme_strom_init) [0x1000] = [False]"
proof -
  let ?r = "strom_ioctl_map_gpu_memory_steps hash0 7
          (sample_map NVIDIA_P2P_PAGE_SIZE_64KB True) nvme_strom_init"
  have e: "enabled (MapGpuMemory 7 (sample_map NVIDIA_P2P_PAGE_SIZE_64KB True)) nvme_strom_init {}"
    by (simp add: sample_map_def nvme_strom_init_def)
  have st: "?r = (fst ?r, - EFAULT, None)"
    using sample_map_steps_fault by (metis prod.collapse)
  have r0: "registry nvme_strom_init = {}"
    by (simp add: registry_def nvme_strom_init_def)
  have l0: "\<not> lookup_finds hash0 nvme_strom_init 0x1000"
    by (simp add: lookup_finds_def strom_get_mapped_gpu_memory_def nvme_strom_init_def)
  have "- EFAULT \<noteq> (0 :: int)" by (simp add: EFAULT_def)
  with failed_map_never_linked [OF reachable_init e st] r0
  have "\<forall>x \<in> set (nvme_strom_init # fst ?r). registry x = {}"
    by simp
  then have "map registry (nvme_strom_init # fst ?r) = replicate 6 {}"
    using sample_map_steps_fault by (intro replicate_eqI) auto
  with reachable_init e sample_map_steps_fault l0 show ?thesis by simp
qed

subsection \<open>Coalescing of copy descriptors\<close>

declare extend_pending.simps [simp del]









lemma maximal_runs_pos: "bs \<noteq> [] \<Longrightarrow> 0 < maximal_runs G bs"
  by (induction G bs rule: maximal_runs.induct) simp_all























text \<open>
  A small copy evaluated on both sides: over a grid of 16 bytes, the second unit is
  split at the boundary inside it and the third does not continue the source,
  which gives three descriptors and three maximal runs.
\<close>
lemma split_inside_unit:
  "coalesce 16 [1000, 2000] 4 [(100, 8), (108, 8), (300, 8)] =
     [\<lparr>d_src_addr = 100, d_src_len = 12, d_dst_off = 4, d_dst_addr = Some 1004, d_dst_len = 12\<rparr>,
      \<lparr>d_src_addr = 112, d_src_len = 4, d_dst_off = 16, d_dst_addr = Some 2000, d_dst_len = 4\<rparr>,
      \<lparr>d_src_addr = 300, d_src_len = 8, d_dst_off = 20, d_dst_addr = Some 2004, d_dst_len = 8\<rparr>] \<and>
   maximal_runs 16 (copy_stream 4 [(100, 8), (108, 8), (300, 8)]) = 3"
  by code_simp



end
